theory Spec2Isabelle
  imports Main
begin

section \<open>Segments and the coverage report of daily_test.py\<close>

text \<open>
  A segment is the half-open interval \<open>[start, end)\<close> of integer seconds, held as the
  pair the segments library holds. \<open>abs(seg)\<close> is its length, \<open>end - start\<close>.
  A SegmentDict maps an instrument name to its segment list; it is kept as an association
  list in the iteration order of \<open>keys()\<close>, one entry per instrument.
\<close>

type_synonym segment = "int \<times> int"
type_synonym segmentlist = "segment list"
type_synonym segmentdict = "(string \<times> segmentlist) list"

definition seg_abs :: "segment \<Rightarrow> int" where
  "seg_abs seg = snd seg - fst seg"

text \<open>
  The six accumulators of \<open>segment_report\<close>. They are set to zero once, before the
  loop over the instruments (lines 60-65 of daily_test.py).
\<close>

record totals =
  fullLen :: int
  fullNum :: int
  shortLen :: int
  shortNum :: int
  longLen :: int
  longNum :: int

definition zero_totals :: totals where
  "zero_totals = \<lparr>fullLen = 0, fullNum = 0, shortLen = 0, shortNum = 0, longLen = 0, longNum = 0\<rparr>"

text \<open>The body of the inner loop \<open>for seg in sSegs[ifo]\<close> (lines 68-75).\<close>

definition count_seg :: "totals \<Rightarrow> segment \<Rightarrow> totals" where
  "count_seg t seg =
     (let t1 = t\<lparr>fullLen := fullLen t + seg_abs seg, fullNum := fullNum t + 1\<rparr>;
          t2 = (if seg_abs seg > 500
                then t1\<lparr>shortLen := shortLen t1 + seg_abs seg, shortNum := shortNum t1 + 1\<rparr>
                else t1);
          t3 = (if seg_abs seg > 2000
                then t2\<lparr>longLen := longLen t2 + seg_abs seg, longNum := longNum t2 + 1\<rparr>
                else t2)
      in t3)"

fun count_segs :: "totals \<Rightarrow> segmentlist \<Rightarrow> totals" where
  "count_segs t [] = t"
| "count_segs t (seg # segs) = count_segs (count_seg t seg) segs"

text \<open>
  The outer loop \<open>for ifo in sSegs.keys()\<close>: the accumulators are carried from one
  instrument to the next, and one line (the instrument with the accumulators as they
  stand) is printed after each instrument's segments (line 76).
\<close>

fun report_loop :: "totals \<Rightarrow> segmentdict \<Rightarrow> (string \<times> totals) list" where
  "report_loop t [] = []"
| "report_loop t ((ifo, segs) # rest) =
     (let t' = count_segs t segs in (ifo, t') # report_loop t' rest)"

definition segment_report :: "segmentdict \<Rightarrow> (string \<times> totals) list" where
  "segment_report sSegs = report_loop zero_totals sSegs"

text \<open>
  The coverage of one segment list taken alone: what the report of a dict holding only
  that instrument counts.
\<close>

definition coverage :: "segmentlist \<Rightarrow> totals" where
  "coverage segs = count_segs zero_totals segs"

subsection \<open>Decimal rendering and the printed line\<close>

definition digit_char :: "nat \<Rightarrow> char" where
  "digit_char n = ''0123456789'' ! n"

fun str_nat :: "nat \<Rightarrow> string" where
  "str_nat n = (if n < 10 then [digit_char n] else str_nat (n div 10) @ [digit_char (n mod 10)])"

declare str_nat.simps [simp del]

definition str_int :: "int \<Rightarrow> string" where
  "str_int i = (if i < 0 then CHR ''-'' # str_nat (nat (- i)) else str_nat (nat i))"

definition format_line :: "string \<times> totals \<Rightarrow> string" where
  "format_line l =
     ''For ifo '' @ fst l @ '' there is '' @ str_int (fullLen (snd l)) @
     '' seconds of data in '' @ str_int (fullNum (snd l)) @ '' segments, '' @
     str_int (shortLen (snd l)) @ '' seconds ('' @ str_int (shortNum (snd l)) @
     '' unique segments) in segments longer than 500s and '' @
     str_int (longLen (snd l)) @ '' seconds ('' @ str_int (longNum (snd l)) @
     '' unique segments) longer than 2000s.''"

definition printed_report :: "segmentdict \<Rightarrow> string list" where
  "printed_report sSegs = map format_line (segment_report sSegs)"

section \<open>Segment algebra\<close>

text \<open>
  The SegmentList invariant of the data model: every segment has \<open>start < end\<close>, the
  segments are in increasing order, and consecutive segments are separated by a gap
  (abutting segments would have been merged).
\<close>

fun is_segmentlist :: "segmentlist \<Rightarrow> bool" where
  "is_segmentlist [] = True"
| "is_segmentlist [(lo, hi)] = (lo < hi)"
| "is_segmentlist ((lo, hi) # (lo', hi') # rest) =
     (lo < hi \<and> hi < lo' \<and> is_segmentlist ((lo', hi') # rest))"

text \<open>No segment of the list starts before \<open>t\<close> (the list being in increasing order).\<close>

fun starts_after :: "int \<Rightarrow> segmentlist \<Rightarrow> bool" where
  "starts_after t [] = True"
| "starts_after t ((lo, hi) # rest) = (t \<le> lo)"

text \<open>The covered time of a segment list: the seconds \<open>t\<close> with \<open>start \<le> t < end\<close>.\<close>

definition cover :: "segmentlist \<Rightarrow> int set" where
  "cover segs = (\<Union>seg \<in> set segs. {fst seg ..< snd seg})"

text \<open>
  Modelled from the spec: the segment-list operators \<open>-\<close> and \<open>&\<close> that daily_test.py
  applies belong to the segments library, which is not among the sources. The spec
  (4.1) gives \<open>difference(a, b)\<close> as "a minus covered time of b" and
  \<open>intersect(a, b)\<close> as "returns overlap; result sorted, coalesced", both pure
  functions. Both are written here as one sweep over the two sorted lists.
\<close>

fun difference :: "segmentlist \<Rightarrow> segmentlist \<Rightarrow> segmentlist" where
  "difference [] bs = []"
| "difference (a # as) [] = a # as"
| "difference ((lo, hi) # as) ((olo, ohi) # bs) =
     (if ohi \<le> lo then difference ((lo, hi) # as) bs
      else if hi \<le> olo then (lo, hi) # difference as ((olo, ohi) # bs)
      else if olo \<le> lo then
        (if hi \<le> ohi then difference as ((olo, ohi) # bs)
         else difference ((ohi, hi) # as) bs)
      else (lo, olo) #
        (if hi \<le> ohi then difference as ((olo, ohi) # bs)
         else difference ((ohi, hi) # as) bs))"

fun intersect :: "segmentlist \<Rightarrow> segmentlist \<Rightarrow> segmentlist" where
  "intersect [] bs = []"
| "intersect (a # as) [] = []"
| "intersect ((lo, hi) # as) ((olo, ohi) # bs) =
     (if max lo olo < min hi ohi then [(max lo olo, min hi ohi)] else []) @
     (if hi < ohi then intersect as ((olo, ohi) # bs)
      else if ohi < hi then intersect ((lo, hi) # as) bs
      else intersect as bs)"

text \<open>
  Modelled from the spec: the same operators on list objects. The spec (4.1) has them
  as "pure functions over SegmentList/SegmentDict, no side effects": the store holds
  the segment lists by address, and \<open>a - b\<close> and \<open>a & b\<close> put their result in a new
  object, whose address they return.
\<close>

type_synonym seg_store = "segmentlist list"

definition seg_sub :: "seg_store \<Rightarrow> nat \<Rightarrow> nat \<Rightarrow> seg_store \<times> nat" where
  "seg_sub h a b = (h @ [difference (h ! a) (h ! b)], length h)"

definition seg_and :: "seg_store \<Rightarrow> nat \<Rightarrow> nat \<Rightarrow> seg_store \<times> nat" where
  "seg_and h a b = (h @ [intersect (h ! a) (h ! b)], length h)"

section \<open>Errors\<close>

datatype error =
    ValueError string
  | NoSectionError string
  | NoOptionError string string
  | IOError string
  | OtherError string

section \<open>The site comparison of daily_test.py\<close>

text \<open>
  What each of the two passes at lines 104-110 and 114-120 prints for an instrument: the
  difference of the two sites' segment lists, or the notice that the other site has no
  entry for the instrument.
\<close>

datatype diff_line = Diff string segmentlist | No_segments string

definition site_minus :: "segmentdict \<Rightarrow> segmentdict \<Rightarrow> diff_line list" where
  "site_minus s1 s2 =
     map (\<lambda>(ifo, segs). case map_of s2 ifo of
            Some segs2 \<Rightarrow> Diff ifo (difference segs segs2)
          | None \<Rightarrow> No_segments ifo) s1"







section \<open>Configuration and the library functions grb_utils.py calls\<close>

text \<open>
  Modelled from the spec: the parser class (WorkflowConfigParser) is not among the
  sources. The spec (6) has the configuration as "key-value pairs grouped by section";
  \<open>get\<close> and \<open>set\<close> are those of the ConfigParser of Python's standard library, which
  the class extends. Every value is a string, stored and returned as written (the
  interpolation of one value into another is left out). \<open>cp.get\<close> raises
  NoSectionError for a missing section and NoOptionError for a missing option;
  \<open>cp.set\<close> raises NoSectionError for a missing section and otherwise stores the
  value under the option, replacing what was there.
\<close>

type_synonym config = "string \<rightharpoonup> (string \<rightharpoonup> string)"

definition cp_get :: "config \<Rightarrow> string \<Rightarrow> string \<Rightarrow> error + string" where
  "cp_get cp section option =
     (case cp section of
        None \<Rightarrow> Inl (NoSectionError section)
      | Some opts \<Rightarrow>
          (case opts option of
             None \<Rightarrow> Inl (NoOptionError option section)
           | Some v \<Rightarrow> Inr v))"


text \<open>
  The functions of Python and of the libraries that grb_utils.py calls and whose code is
  not among the sources, taken as parameters: \<open>int\<close> and \<open>float\<close> of a string (each may
  raise), the float \<open>0.\<close>, the constructor \<open>segments.segment\<close>, the path of a URL
  (\<open>cache_entry.path\<close>), \<open>os.path.join\<close>, and \<open>urljoin("file:", pathname2url(p))\<close>.
  \<open>'f\<close> is the type of floats.
\<close>

record 'f py =
  to_int :: "string \<Rightarrow> error + int"
  to_float :: "string \<Rightarrow> error + 'f"
  fzero :: 'f
  new_segment :: "int \<Rightarrow> int \<Rightarrow> error + segment"
  url_path :: "string \<Rightarrow> string"
  path_join :: "string \<Rightarrow> string \<Rightarrow> string"
  path_url :: "string \<Rightarrow> string"

section \<open>Files\<close>

text \<open>
  Modelled from the spec: the class \<open>File\<close> of pycbc.workflow.core and its method
  \<open>add_pfn\<close> are not among the sources. The spec (3, 4.2) gives a File a producing
  source, a logical name, a validity segment and an ordered set of physical file names
  each with a site label, and \<open>add_pfn(file, path, site)\<close> "appends an alternate physical
  location; no-op if (path, site) already present".
\<close>

record File =
  f_ifo :: string
  f_exe_name :: string
  f_segs :: segment
  f_url :: string
  f_path :: string
  f_pfns :: "(string \<times> string) list"

definition add_pfn :: "File \<Rightarrow> string \<Rightarrow> string \<Rightarrow> File" where
  "add_pfn f path site =
     (if (path, site) \<in> set (f_pfns f) then f
      else f\<lparr>f_pfns := f_pfns f @ [(path, site)]\<rparr>)"

text \<open>A table row: the attributes that are set, by column name.\<close>

datatype 'f val = VFloat 'f | VInt int | VStr string

type_synonym 'f row = "string \<rightharpoonup> 'f val"

text \<open>
  What the functions do to the world outside: the file copies made (source, destination),
  the File objects constructed, the documents written (path, row). \<open>copy_ok\<close> and
  \<open>write_ok\<close> say which copies and writes the file system lets through; the others
  raise IOError.
\<close>

record 'f world =
  copy_ok :: "string \<Rightarrow> string \<Rightarrow> bool"
  write_ok :: "string \<Rightarrow> bool"
  copied :: "(string \<times> string) list"
  created :: "File list"
  written :: "(string \<times> 'f row) list"

definition shutil_copy :: "'f world \<Rightarrow> string \<Rightarrow> string \<Rightarrow> error + 'f world" where
  "shutil_copy w src dst =
     (if copy_ok w src dst then Inr (w\<lparr>copied := copied w @ [(src, dst)]\<rparr>)
      else Inl (IOError src))"

definition write_filename :: "'f world \<Rightarrow> 'f row \<Rightarrow> string \<Rightarrow> error + 'f world" where
  "write_filename w doc path =
     (if write_ok w path then Inr (w\<lparr>written := written w @ [(path, doc)]\<rparr>)
      else Inl (IOError path))"

definition new_File ::
  "'f py \<Rightarrow> 'f world \<Rightarrow> string \<Rightarrow> string \<Rightarrow> segment \<Rightarrow> string \<Rightarrow> 'f world \<times> File" where
  "new_File py w ifos exe_name segs file_url =
     (let f = \<lparr>f_ifo = ifos, f_exe_name = exe_name, f_segs = segs, f_url = file_url,
                f_path = url_path py file_url, f_pfns = []\<rparr>
      in (w\<lparr>created := created w @ [f]\<rparr>, f))"

section \<open>grb_utils.py\<close>

subsection \<open>set_grb_start_end\<close>


subsection \<open>get_coh_PTF_files\<close>

text \<open>
  One of the three blocks of lines 105-112, 116-123 and 126-133, which differ in the
  file name and the File's name only: copy the file from the LAL source tree to the run
  directory, construct its File, add the local PFN.
\<close>

definition retrieve ::
  "'f py \<Rightarrow> string \<Rightarrow> string \<Rightarrow> string \<Rightarrow> segment \<Rightarrow> string \<Rightarrow> string \<Rightarrow> 'f world \<Rightarrow>
   'f world \<times> (error + File)" where
  "retrieve py lalDir ifos run_dir sci_seg fname exe_name w =
     (case shutil_copy w (lalDir @ ''/lalapps/src/ring/coh_PTF_config_files/'' @ fname) run_dir of
        Inl e \<Rightarrow> (w, Inl e)
      | Inr w1 \<Rightarrow>
          (let url = ''file://localhost'' @ run_dir @ ''/'' @ fname;
               (w2, f) = new_File py w1 ifos exe_name sci_seg url
           in (w2, Inr (add_pfn f (f_path f) ''local''))))"

text \<open>The science segment of lines 99-100, read from the configuration.\<close>

definition workflow_segment :: "'f py \<Rightarrow> config \<Rightarrow> error + segment" where
  "workflow_segment py cp =
     (case cp_get cp ''workflow'' ''start-time'' of
        Inl e \<Rightarrow> Inl e
      | Inr s \<Rightarrow>
     (case to_int py s of
        Inl e \<Rightarrow> Inl e
      | Inr a \<Rightarrow>
     (case cp_get cp ''workflow'' ''end-time'' of
        Inl e \<Rightarrow> Inl e
      | Inr t \<Rightarrow>
     (case to_int py t of
        Inl e \<Rightarrow> Inl e
      | Inr b \<Rightarrow> new_segment py a b))))"

definition summary_part ::
  "'f py \<Rightarrow> string \<Rightarrow> string \<Rightarrow> string \<Rightarrow> segment \<Rightarrow> File list \<Rightarrow> 'f world \<Rightarrow>
   'f world \<times> (error + File list)" where
  "summary_part py lalDir ifos run_dir sci_seg file_list w =
     (case retrieve py lalDir ifos run_dir sci_seg
             ''coh_PTF_html_summary.js'' ''coh_PTF_html_summary_js'' w of
        (w1, Inl e) \<Rightarrow> (w1, Inl e)
      | (w1, Inr summary_js) \<Rightarrow>
     (case retrieve py lalDir ifos run_dir sci_seg
             ''coh_PTF_html_summary.css'' ''coh_PTF_html_summary_css'' w1 of
        (w2, Inl e) \<Rightarrow> (w2, Inl e)
      | (w2, Inr summary_css) \<Rightarrow> (w2, Inr (file_list @ [summary_js] @ [summary_css]))))"

definition get_coh_PTF_files ::
  "'f py \<Rightarrow> (string \<rightharpoonup> string) \<Rightarrow> config \<Rightarrow> string \<Rightarrow> string \<Rightarrow> bool \<Rightarrow> bool \<Rightarrow> 'f world \<Rightarrow>
   'f world \<times> (error + File list)" where
  "get_coh_PTF_files py getenv cp ifos run_dir bank_veto summary_files w =
     (case getenv ''LAL_SRC'' of
        None \<Rightarrow> (w, Inl (ValueError
          ''The environment variable LAL_SRC must be set to a location containing the file lalsuite.git''))
      | Some lalDir \<Rightarrow>
     (case workflow_segment py cp of
        Inl e \<Rightarrow> (w, Inl e)
      | Inr sci_seg \<Rightarrow>
     (case (if bank_veto
            then (case retrieve py lalDir ifos run_dir sci_seg
                         ''bank_veto_bank.xml'' ''bank_veto_bank'' w of
                    (w1, Inl e) \<Rightarrow> (w1, Inl e)
                  | (w1, Inr bank) \<Rightarrow> (w1, Inr ([] @ [bank])))
            else (w, Inr [])) of
        (w1, Inl e) \<Rightarrow> (w1, Inl e)
      | (w1, Inr file_list) \<Rightarrow>
          (if summary_files then summary_part py lalDir ifos run_dir sci_seg file_list w1
           else (w1, Inr file_list)))))"

subsection \<open>make_exttrig_file\<close>

text \<open>
  Lines 171-174: the four attributes known for the GRB, set on the new row in this
  order; a configuration lookup or a conversion that raises ends the function.
\<close>

definition known_attributes :: "'f py \<Rightarrow> config \<Rightarrow> 'f row \<Rightarrow> error + 'f row" where
  "known_attributes py cp row =
     (case cp_get cp ''workflow'' ''ra'' of
        Inl e \<Rightarrow> Inl e
      | Inr ra \<Rightarrow>
     (case to_float py ra of
        Inl e \<Rightarrow> Inl e
      | Inr event_ra \<Rightarrow>
     (case cp_get cp ''workflow'' ''dec'' of
        Inl e \<Rightarrow> Inl e
      | Inr dec \<Rightarrow>
     (case to_float py dec of
        Inl e \<Rightarrow> Inl e
      | Inr event_dec \<Rightarrow>
     (case cp_get cp ''workflow'' ''trigger-time'' of
        Inl e \<Rightarrow> Inl e
      | Inr tt \<Rightarrow>
     (case to_int py tt of
        Inl e \<Rightarrow> Inl e
      | Inr start_time \<Rightarrow>
     (case cp_get cp ''workflow'' ''trigger-name'' of
        Inl e \<Rightarrow> Inl e
      | Inr trigger_name \<Rightarrow>
          Inr (row(''event_ra'' \<mapsto> VFloat event_ra,
                   ''event_dec'' \<mapsto> VFloat event_dec,
                   ''start_time'' \<mapsto> VInt start_time,
                   ''event_number_grb'' \<mapsto> VStr trigger_name)))))))))"

text \<open>
  Lines 177-191: the loop over \<open>cols.keys()\<close>, where \<open>cols\<close> is the table's
  \<open>validcolumns\<close> (column name to kind), a parameter here: the table class is the
  library's. The loop is over the dict's entries, \<open>cols[entry]\<close> being the kind paired
  with \<open>entry\<close>.
\<close>

fun fill_empty :: "'f \<Rightarrow> (string \<times> string) list \<Rightarrow> 'f row \<Rightarrow> error + 'f row" where
  "fill_empty z [] row = Inr row"
| "fill_empty z ((entry, kind) # cols) row =
     (if row entry \<noteq> None then fill_empty z cols row
      else if kind \<in> set [''real_4'', ''real_8''] then fill_empty z cols (row(entry \<mapsto> VFloat z))
      else if kind \<in> set [''int_4s'', ''int_8s''] then fill_empty z cols (row(entry \<mapsto> VInt 0))
      else if kind = ''lstring'' then fill_empty z cols (row(entry \<mapsto> VStr []))
      else if entry = ''process_id'' then fill_empty z cols (row(entry \<mapsto> VInt 0))
      else if entry = ''event_id'' then fill_empty z cols (row(entry \<mapsto> VInt 0))
      else Inl (ValueError (''Column '' @ entry @ '' not recognized'')))"

definition exttrig_row :: "'f py \<Rightarrow> (string \<times> string) list \<Rightarrow> config \<Rightarrow> error + 'f row" where
  "exttrig_row py cols cp =
     (case known_attributes py cp Map.empty of
        Inl e \<Rightarrow> Inl e
      | Inr row \<Rightarrow> fill_empty (fzero py) cols row)"

text \<open>
  The default the loop gives a column that is not yet set, by the order of its tests:
  the kind first, the two names after. \<open>None\<close> is the column the loop does not
  recognize.
\<close>

definition default_value :: "'f \<Rightarrow> string \<Rightarrow> string \<Rightarrow> 'f val option" where
  "default_value z entry kind =
     (if kind = ''real_4'' \<or> kind = ''real_8'' then Some (VFloat z)
      else if kind = ''int_4s'' \<or> kind = ''int_8s'' then Some (VInt 0)
      else if kind = ''lstring'' then Some (VStr [])
      else if entry = ''process_id'' \<or> entry = ''event_id'' then Some (VInt 0)
      else None)"

definition known_columns :: "string list" where
  "known_columns = [''event_ra'', ''event_dec'', ''start_time'', ''event_number_grb'']"

text \<open>Lines 163-202, the whole function: the row, then the document written and its File.\<close>

definition make_exttrig_file ::
  "'f py \<Rightarrow> (string \<times> string) list \<Rightarrow> config \<Rightarrow> string \<Rightarrow> segment \<Rightarrow> string \<Rightarrow> 'f world \<Rightarrow>
   'f world \<times> (error + File)" where
  "make_exttrig_file py cols cp ifos sci_seg out_dir w =
     (case exttrig_row py cols cp of
        Inl e \<Rightarrow> (w, Inl e)
      | Inr row \<Rightarrow>
     (case cp_get cp ''workflow'' ''trigger-name'' of
        Inl e \<Rightarrow> (w, Inl e)
      | Inr trigger_name \<Rightarrow>
          (let xml_file_name = ''triggerGRB'' @ trigger_name @ ''.xml'';
               xml_file_path = path_join py out_dir xml_file_name
           in (case write_filename w row xml_file_path of
                 Inl e \<Rightarrow> (w, Inl e)
               | Inr w1 \<Rightarrow>
                   (let xml_file_url = path_url py xml_file_path;
                        (w2, xml_file) = new_File py w1 ifos xml_file_name sci_seg xml_file_url
                    in (w2, Inr (add_pfn xml_file xml_file_url ''local'')))))))"

subsection \<open>get_ipn_sky_files and make_gating_node\<close>

record workflow =
  wf_cp :: config
  wf_ifos :: "string list"
  wf_analysis_time :: segment

record file_attrs =
  attr_ifos :: "string list"
  attr_segs :: segment
  attr_exe_name :: string
  attr_tags :: "string list"

text \<open>
  \<open>resolve_url_to_file\<close> of pycbc.workflow.core is a parameter. The optional argument
  \<open>tags\<close> is \<open>None\<close> when omitted. Line 225, \<open>tags or []\<close>, replaces \<open>None\<close> and the
  empty list by a new empty list.
\<close>

definition get_ipn_sky_files ::
  "(string \<Rightarrow> file_attrs \<Rightarrow> error + 'file) \<Rightarrow> workflow \<Rightarrow> string \<Rightarrow> string list option \<Rightarrow>
   error + 'file" where
  "get_ipn_sky_files resolve_url_to_file workflow file_url tags =
     (let tags1 = (case tags of None \<Rightarrow> [] | Some ts \<Rightarrow> if ts = [] then [] else ts);
          file_attrs = \<lparr>attr_ifos = wf_ifos workflow, attr_segs = wf_analysis_time workflow,
                        attr_exe_name = ''IPN_SKY_POINTS'', attr_tags = tags1\<rparr>
      in resolve_url_to_file file_url file_attrs)"

text \<open>
  For \<open>make_gating_node\<close> the parameters are \<open>select_generic_executable\<close> (which gives
  the job class or raises), the constructor of the job class, and the job's
  \<open>create_node\<close>, which returns the node and its output file.
\<close>

record ('cls, 'job, 'node) jobsetup =
  select_generic_executable :: "workflow \<Rightarrow> string \<Rightarrow> error + 'cls"
  construct :: "'cls \<Rightarrow> config \<Rightarrow> string \<Rightarrow> string \<Rightarrow> string option \<Rightarrow> string list \<Rightarrow> error + 'job"
  create_node :: "'job \<Rightarrow> File list \<Rightarrow> string list \<Rightarrow> error + ('node \<times> File)"

text \<open>Lines 270-278: the loop over \<open>workflow.ifos\<close>, with the two lists it appends to.\<close>

fun gating_loop ::
  "('cls, 'job, 'node) jobsetup \<Rightarrow> 'cls \<Rightarrow> config \<Rightarrow> File list \<Rightarrow> string option \<Rightarrow> string list \<Rightarrow>
   string list \<Rightarrow> 'node list \<Rightarrow> File list \<Rightarrow> error + ('node list \<times> File list)" where
  "gating_loop js cls cp datafind_files outdir tags [] nodes outs = Inr (nodes, outs)"
| "gating_loop js cls cp datafind_files outdir tags (ifo # ifos) nodes outs =
     (let input_files = filter (\<lambda>datafind_file. f_ifo datafind_file = ifo) datafind_files
      in (case construct js cls cp ''condition_strain'' ifo outdir tags of
            Inl e \<Rightarrow> Inl e
          | Inr job \<Rightarrow>
         (case create_node js job input_files tags of
            Inl e \<Rightarrow> Inl e
          | Inr (node, out) \<Rightarrow>
              gating_loop js cls cp datafind_files outdir tags ifos (nodes @ [node]) (outs @ [out]))))"

definition make_gating_node ::
  "('cls, 'job, 'node) jobsetup \<Rightarrow> workflow \<Rightarrow> File list \<Rightarrow> string option \<Rightarrow> string list option \<Rightarrow>
   error + ('node list \<times> File list)" where
  "make_gating_node js workflow datafind_files outdir tags =
     (let cp = wf_cp workflow;
          tags1 = (case tags of None \<Rightarrow> [] | Some ts \<Rightarrow> ts)
      in (case select_generic_executable js workflow ''condition_strain'' of
            Inl e \<Rightarrow> Inl e
          | Inr condition_strain_class \<Rightarrow>
              gating_loop js condition_strain_class cp datafind_files outdir tags1
                (wf_ifos workflow) [] []))"

section \<open>Example inputs\<close>

text \<open>
  Concrete library functions (a float is kept as the text it was read from), an empty
  world and a configuration, for the theorems that evaluate the functions above.
\<close>

definition example_py :: "string py" where
  "example_py =
     \<lparr>to_int = (\<lambda>s. if s = ''5'' then Inr 5 else if s = ''20'' then Inr 20 else Inl (ValueError s)),
      to_float = (\<lambda>s. Inr s), fzero = ''0.0'',
      new_segment = (\<lambda>a b. Inr (a, b)), url_path = (\<lambda>u. u),
      path_join = (\<lambda>d n. d @ ''/'' @ n), path_url = (\<lambda>p. ''file://'' @ p)\<rparr>"

definition example_world :: "string world" where
  "example_world =
     \<lparr>copy_ok = (\<lambda>s d. True), write_ok = (\<lambda>p. True), copied = [], created = [], written = []\<rparr>"

definition example_cp :: config where
  "example_cp = [''workflow'' \<mapsto> [''start-time'' \<mapsto> ''5'', ''end-time'' \<mapsto> ''20'']]"

definition example_file :: File where
  "example_file =
     \<lparr>f_ifo = ''H1'', f_exe_name = ''x'', f_segs = (0, 10), f_url = ''file://localhost/a'',
      f_path = ''/a'', f_pfns = [(''/b'', ''osg'')]\<rparr>"

text \<open>
  A table of valid columns, a configuration with the four values of the GRB and the row
  \<open>make_exttrig_file\<close> builds from them; a job setup whose nodes are named by the
  instrument and the paths of their input files, and a workflow with two instruments.
\<close>

definition example_cols :: "(string \<times> string) list" where
  "example_cols =
     [(''process_id'', ''ilwd:char''), (''det_name'', ''lstring''), (''event_dec'', ''real_4''),
      (''event_ra'', ''real_4''), (''start_time'', ''int_4s''), (''start_time_ns'', ''int_4s''),
      (''event_z'', ''real_4''), (''event_number_grb'', ''lstring'')]"

definition example_grb_cp :: config where
  "example_grb_cp =
     [''workflow'' \<mapsto> [''ra'' \<mapsto> ''1.5'', ''dec'' \<mapsto> ''-0.5'', ''trigger-time'' \<mapsto> ''20'',
                        ''trigger-name'' \<mapsto> ''100928A'']]"

definition example_row :: "string row" where
  "example_row =
     [''event_ra'' \<mapsto> VFloat ''1.5'', ''event_dec'' \<mapsto> VFloat ''-0.5'', ''start_time'' \<mapsto> VInt 20,
      ''event_number_grb'' \<mapsto> VStr ''100928A'', ''process_id'' \<mapsto> VInt 0, ''det_name'' \<mapsto> VStr [],
      ''start_time_ns'' \<mapsto> VInt 0, ''event_z'' \<mapsto> VFloat ''0.0'']"

definition example_jobsetup :: "(string, string \<times> string list, string) jobsetup" where
  "example_jobsetup =
     \<lparr>select_generic_executable = (\<lambda>wf exe. Inr exe),
      construct = (\<lambda>cls cp exe ifo outdir tags. Inr (ifo, tags)),
      create_node = (\<lambda>job input_files tags.
        Inr (fst job @ '':'' @ concat (map f_path input_files),
             \<lparr>f_ifo = fst job, f_exe_name = ''condition_strain'', f_segs = (0, 10),
              f_url = ''file://localhost/gated'', f_path = ''/gated'', f_pfns = []\<rparr>))\<rparr>"

definition example_frame :: "string \<Rightarrow> string \<Rightarrow> File" where
  "example_frame ifo path =
     \<lparr>f_ifo = ifo, f_exe_name = ''frame'', f_segs = (0, 10), f_url = ''file://localhost'' @ path,
      f_path = path, f_pfns = []\<rparr>"

definition example_workflow :: workflow where
  "example_workflow = \<lparr>wf_cp = Map.empty, wf_ifos = [''H1'', ''L1''], wf_analysis_time = (0, 10)\<rparr>"





section \<open>The coverage report\<close>

lemma count_segs_append: "count_segs t (xs @ ys) = count_segs (count_segs t xs) ys"
  by (induction xs arbitrary: t) simp_all

lemma report_loop_length: "length (report_loop t d) = length d"
  by (induction t d rule: report_loop.induct) (simp_all add: Let_def)

text \<open>
  What the report prints: the line of the \<open>k\<close>-th instrument carries the totals over
  the segments of all instruments up to and including the \<open>k\<close>-th.
\<close>

lemma report_loop_nth:
  "k < length d \<Longrightarrow>
   report_loop t d ! k = (fst (d ! k), count_segs t (concat (map snd (take (Suc k) d))))"
proof (induction t d arbitrary: k rule: report_loop.induct)
  case (1 t)
  then show ?case by simp
next
  case (2 t ifo segs rest)
  show ?case
  proof (cases k)
    case 0
    then show ?thesis by (simp add: Let_def)
  next
    case (Suc j)
    with 2 show ?thesis by (simp add: Let_def count_segs_append)
  qed
qed

lemma segment_report_first:
  "segment_report ((ifo, segs) # rest) ! 0 = (ifo, coverage segs)"
  by (simp add: segment_report_def coverage_def Let_def)

text \<open>
  C1. The claim: the line printed for each instrument reports the coverage of that
  instrument's segments alone. The code does not do this: the accumulators are not
  reset between instruments. For the dict with H1 holding \<open>[0,1000)\<close> and L1 holding
  \<open>[0,100)\<close>, the line for L1 reports 1100 seconds in 2 segments and 1000 seconds in 1
  segment longer than 500 s, where L1 alone has 100 seconds in 1 segment and nothing
  longer than 500 s.
\<close>

theorem segment_report_accumulates:
  "segment_report [(''H1'', [(0, 1000)]), (''L1'', [(0, 100)])] =
     [(''H1'', \<lparr>fullLen = 1000, fullNum = 1, shortLen = 1000, shortNum = 1, longLen = 0, longNum = 0\<rparr>),
      (''L1'', \<lparr>fullLen = 1100, fullNum = 2, shortLen = 1000, shortNum = 1, longLen = 0, longNum = 0\<rparr>)]
   \<and> coverage [(0, 100)] =
     \<lparr>fullLen = 100, fullNum = 1, shortLen = 0, shortNum = 0, longLen = 0, longNum = 0\<rparr>"
  by (simp add: segment_report_def coverage_def zero_totals_def count_seg_def seg_abs_def Let_def)

text \<open>
  C3. For instrument H with \<open>[[0,1000)]\<close> at site A and \<open>[[500,1000)]\<close> at site B, the
  comparison gives A minus B as \<open>[[0,500)]\<close> and B minus A as the empty list, and the
  report prints 1000 seconds in 1 segment for A and 500 seconds in 1 segment for B.
\<close>

theorem site_comparison_scenario:
  "site_minus [(''H'', [(0, 1000)])] [(''H'', [(500, 1000)])] = [Diff ''H'' [(0, 500)]]
   \<and> site_minus [(''H'', [(500, 1000)])] [(''H'', [(0, 1000)])] = [Diff ''H'' []]
   \<and> printed_report [(''H'', [(0, 1000)])] =
       [''For ifo H there is 1000 seconds of data in 1 segments, 1000 seconds (1 unique segments) in segments longer than 500s and 0 seconds (0 unique segments) longer than 2000s.'']
   \<and> printed_report [(''H'', [(500, 1000)])] =
       [''For ifo H there is 500 seconds of data in 1 segments, 0 seconds (0 unique segments) in segments longer than 500s and 0 seconds (0 unique segments) longer than 2000s.'']"
  by (simp add: site_minus_def printed_report_def format_line_def segment_report_def zero_totals_def
      count_seg_def seg_abs_def Let_def str_int_def str_nat.simps digit_char_def)

section \<open>Laws of the segment algebra\<close>

lemma intersect_Nil2: "intersect A [] = []"
  by (cases A) simp_all

lemma intersect_commute: "intersect A B = intersect B A"
  by (induction A B rule: intersect.induct) (auto simp: max.commute min.commute intersect_Nil2)

lemma difference_skip:
  "olo < ohi \<Longrightarrow> starts_after ohi as \<Longrightarrow> difference as ((olo, ohi) # bs) = difference as bs"
  by (cases as) auto

lemma is_segmentlist_tail: "is_segmentlist (a # as) \<Longrightarrow> is_segmentlist as"
  by (cases a; cases as) auto

lemma is_segmentlist_head: "is_segmentlist ((lo, hi) # as) \<Longrightarrow> lo < hi \<and> starts_after hi as"
  by (cases as) auto

lemma difference_self: "is_segmentlist A \<Longrightarrow> difference A A = []"
proof (induction A)
  case Nil
  then show ?case by simp
next
  case (Cons a as)
  obtain lo hi where a: "a = (lo, hi)" by (cases a)
  from Cons.prems a have h: "lo < hi" "starts_after hi as"
    using is_segmentlist_head by auto
  from Cons.prems have "is_segmentlist as" by (rule is_segmentlist_tail)
  then have IH: "difference as as = []" by (rule Cons.IH)
  have "difference (a # as) (a # as) = difference as ((lo, hi) # as)"
    using h a by simp
  also have "\<dots> = difference as as" using h by (rule difference_skip)
  finally show ?case using IH by simp
qed

text \<open>
  C7. For all SegmentLists A and B, the intersection of A and B equals that of B and A,
  and the difference of A with itself is empty. The operators leave their arguments as
  they were: in the store after \<open>a & b\<close> or \<open>a - b\<close>, the objects at the addresses
  \<open>a\<close> and \<open>b\<close> hold what they held before, and the result is a new object.
\<close>

theorem segment_algebra_laws:
  "intersect A B = intersect B A
   \<and> (is_segmentlist A \<longrightarrow> difference A A = [])
   \<and> (a < length h \<and> b < length h \<longrightarrow>
        fst (seg_and h a b) ! snd (seg_and h a b) = intersect (h ! a) (h ! b)
        \<and> fst (seg_sub h a b) ! snd (seg_sub h a b) = difference (h ! a) (h ! b)
        \<and> fst (seg_and h a b) ! a = h ! a \<and> fst (seg_and h a b) ! b = h ! b
        \<and> fst (seg_sub h a b) ! a = h ! a \<and> fst (seg_sub h a b) ! b = h ! b)"
  by (simp add: intersect_commute difference_self seg_and_def seg_sub_def nth_append)

theorem segment_algebra_laws_witness:
  "is_segmentlist [(0, 10), (20, 30)]
   \<and> (0::nat) < length [[(0, 10), (20, 30)], [(5, 25)]]
   \<and> (1::nat) < length [[(0, 10), (20, 30)], [(5, 25)]]
   \<and> intersect [(0, 10), (20, 30)] [(5, 25)] = [(5, 10), (20, 25)]
   \<and> intersect [(5, 25)] [(0, 10), (20, 30)] = [(5, 10), (20, 25)]
   \<and> difference [(0, 10), (20, 30)] [(0, 10), (20, 30)] = []
   \<and> seg_sub [[(0, 10), (20, 30)], [(5, 25)]] 0 1 =
       ([[(0, 10), (20, 30)], [(5, 25)], [(0, 5), (25, 30)]], 2)
   \<and> seg_and [[(0, 10), (20, 30)], [(5, 25)]] 0 1 =
       ([[(0, 10), (20, 30)], [(5, 25)], [(5, 10), (20, 25)]], 2)"
  using segment_algebra_laws [of "[(0, 10), (20, 30)]" "[(5, 25)]" 0
      "[[(0, 10), (20, 30)], [(5, 25)]]" 1]
  by (simp add: seg_and_def seg_sub_def)

section \<open>The operators and the covered time\<close>

text \<open>
  The two sweeps do what the spec describes: on lists with the SegmentList invariant the
  result has the invariant again (sorted, no two segments touching), the difference
  covers the time of the first list that the second does not cover, and the
  intersection covers the time both cover.
\<close>

lemma cover_Nil: "cover [] = {}"
  by (simp add: cover_def)

lemma cover_Cons: "cover ((lo, hi) # xs) = {lo ..< hi} \<union> cover xs"
  by (simp add: cover_def)

lemma is_segmentlist_Cons:
  "is_segmentlist ((lo, hi) # xs) = (lo < hi \<and> starts_after (hi + 1) xs \<and> is_segmentlist xs)"
  by (cases xs) auto

lemma starts_after_mono: "starts_after t xs \<Longrightarrow> s \<le> t \<Longrightarrow> starts_after s xs"
  by (cases xs) auto

lemma cover_after: "is_segmentlist xs \<Longrightarrow> starts_after t xs \<Longrightarrow> x \<in> cover xs \<Longrightarrow> t \<le> x"
proof (induction xs arbitrary: t)
  case Nil
  then show ?case by (simp add: cover_Nil)
next
  case (Cons a xs)
  obtain lo hi where a: "a = (lo, hi)" by (cases a)
  from Cons.prems a have p: "lo < hi" "starts_after (hi + 1) xs" "is_segmentlist xs" "t \<le> lo"
    by (simp_all add: is_segmentlist_Cons)
  from Cons.prems(3) a consider "lo \<le> x" | "x \<in> cover xs" by (auto simp: cover_Cons)
  then show ?case
  proof cases
    case 1
    with p show ?thesis by simp
  next
    case 2
    with Cons.IH [OF p(3) p(2)] have "hi + 1 \<le> x" by simp
    with p show ?thesis by simp
  qed
qed

lemma starts_after_difference:
  "is_segmentlist A \<Longrightarrow> starts_after t A \<Longrightarrow> starts_after t (difference A B)"
proof (induction A B rule: difference.induct)
  case (1 bs)
  then show ?case by simp
next
  case (2 a as)
  then show ?case by simp
next
  case (3 lo hi as olo ohi bs)
  from "3.prems" have p: "lo < hi" "starts_after (hi + 1) as" "is_segmentlist as" "t \<le> lo"
    by (simp_all add: is_segmentlist_Cons)
  from p have tas: "starts_after t as" by (intro starts_after_mono [OF p(2)]) simp
  show ?case
  proof (cases "ohi \<le> lo")
    case True
    with 3 show ?thesis by simp
  next
    case n1: False
    show ?thesis
    proof (cases "hi \<le> olo")
      case True
      with n1 p show ?thesis by simp
    next
      case n2: False
      show ?thesis
      proof (cases "olo \<le> lo")
        case o: True
        show ?thesis
        proof (cases "hi \<le> ohi")
          case True
          with n1 n2 o "3.IH"(3) [OF n1 n2 o True p(3) tas] show ?thesis by simp
        next
          case False
          have "is_segmentlist ((ohi, hi) # as)" using False p by (simp add: is_segmentlist_Cons)
          moreover have "starts_after t ((ohi, hi) # as)" using n1 p by simp
          ultimately have "starts_after t (difference ((ohi, hi) # as) bs)"
            using "3.IH"(4) [OF n1 n2 o False] by simp
          with n1 n2 o False show ?thesis by simp
        qed
      next
        case False
        with n1 n2 p show ?thesis by simp
      qed
    qed
  qed
qed


lemma is_segmentlist_difference:
  "is_segmentlist A \<Longrightarrow> is_segmentlist B \<Longrightarrow> is_segmentlist (difference A B)"
proof (induction A B rule: difference.induct)
  case (1 bs)
  then show ?case by simp
next
  case (2 a as)
  then show ?case by simp
next
  case (3 lo hi as olo ohi bs)
  from "3.prems"(1) have p: "lo < hi" "starts_after (hi + 1) as" "is_segmentlist as"
    by (simp_all add: is_segmentlist_Cons)
  from "3.prems"(2) have q: "olo < ohi" "starts_after (ohi + 1) bs" "is_segmentlist bs"
    by (simp_all add: is_segmentlist_Cons)
  show ?case
  proof (cases "ohi \<le> lo")
    case True
    with "3.IH"(1) "3.prems"(1) q show ?thesis by simp
  next
    case n1: False
    show ?thesis
    proof (cases "hi \<le> olo")
      case True
      from "3.IH"(2) [OF n1 True p(3) "3.prems"(2)]
      have "is_segmentlist (difference as ((olo, ohi) # bs))" .
      moreover from p have "starts_after (hi + 1) (difference as ((olo, ohi) # bs))"
        by (intro starts_after_difference)
      ultimately show ?thesis using n1 True p by (simp add: is_segmentlist_Cons)
    next
      case n2: False
      have rest1: "is_segmentlist (difference as ((olo, ohi) # bs))
          \<and> starts_after (hi + 1) (difference as ((olo, ohi) # bs))" if h: "hi \<le> ohi"
      proof -
        have "is_segmentlist (difference as ((olo, ohi) # bs))"
        proof (cases "olo \<le> lo")
          case True
          from "3.IH"(3) [OF n1 n2 True h p(3) "3.prems"(2)] show ?thesis .
        next
          case False
          from "3.IH"(5) [OF n1 n2 False h p(3) "3.prems"(2)] show ?thesis .
        qed
        moreover from p have "starts_after (hi + 1) (difference as ((olo, ohi) # bs))"
          by (intro starts_after_difference)
        ultimately show ?thesis by simp
      qed
      have rest2: "is_segmentlist (difference ((ohi, hi) # as) bs)
          \<and> starts_after ohi (difference ((ohi, hi) # as) bs)" if h: "\<not> hi \<le> ohi"
      proof -
        have v: "is_segmentlist ((ohi, hi) # as)" using h p by (simp add: is_segmentlist_Cons)
        have "is_segmentlist (difference ((ohi, hi) # as) bs)"
        proof (cases "olo \<le> lo")
          case True
          from "3.IH"(4) [OF n1 n2 True h v q(3)] show ?thesis .
        next
          case False
          from "3.IH"(6) [OF n1 n2 False h v q(3)] show ?thesis .
        qed
        moreover from v have "starts_after ohi (difference ((ohi, hi) # as) bs)"
          by (intro starts_after_difference) simp_all
        ultimately show ?thesis by simp
      qed
      show ?thesis
      proof (cases "olo \<le> lo")
        case o: True
        show ?thesis
        proof (cases "hi \<le> ohi")
          case True
          with n1 n2 o rest1 [OF True] show ?thesis by simp
        next
          case False
          with n1 n2 o rest2 [OF False] show ?thesis by simp
        qed
      next
        case o: False
        show ?thesis
        proof (cases "hi \<le> ohi")
          case True
          from rest1 [OF True] have r: "is_segmentlist (difference as ((olo, ohi) # bs))"
            "starts_after (hi + 1) (difference as ((olo, ohi) # bs))" by simp_all
          from r(2) n2 have "starts_after (olo + 1) (difference as ((olo, ohi) # bs))"
            by (intro starts_after_mono [OF r(2)]) simp
          with r(1) n1 n2 o True show ?thesis by (simp add: is_segmentlist_Cons)
        next
          case False
          from rest2 [OF False] have r: "is_segmentlist (difference ((ohi, hi) # as) bs)"
            "starts_after ohi (difference ((ohi, hi) # as) bs)" by simp_all
          from r(2) q(1) have "starts_after (olo + 1) (difference ((ohi, hi) # as) bs)"
            by (intro starts_after_mono [OF r(2)]) simp
          with r(1) n1 n2 o False show ?thesis by (simp add: is_segmentlist_Cons)
        qed
      qed
    qed
  qed
qed


lemma cover_difference:
  "is_segmentlist A \<Longrightarrow> is_segmentlist B \<Longrightarrow> cover (difference A B) = cover A - cover B"
proof (induction A B rule: difference.induct)
  case (1 bs)
  then show ?case by (simp add: cover_Nil)
next
  case (2 a as)
  then show ?case by (simp add: cover_Nil)
next
  case (3 lo hi as olo ohi bs)
  from "3.prems"(1) have p: "lo < hi" "starts_after (hi + 1) as" "is_segmentlist as"
    by (simp_all add: is_segmentlist_Cons)
  from "3.prems"(2) have q: "olo < ohi" "starts_after (ohi + 1) bs" "is_segmentlist bs"
    by (simp_all add: is_segmentlist_Cons)
  show ?case
  proof (rule set_eqI)
    fix x
    have ax: "x \<in> cover as \<longrightarrow> hi + 1 \<le> x"
      using cover_after [OF p(3) p(2)] by blast
    have bx: "x \<in> cover bs \<longrightarrow> ohi + 1 \<le> x"
      using cover_after [OF q(3) q(2)] by blast
    have goal: "x \<in> cover ((lo, hi) # as) - cover ((olo, ohi) # bs) \<longleftrightarrow>
        ((lo \<le> x \<and> x < hi) \<or> x \<in> cover as) \<and> \<not> ((olo \<le> x \<and> x < ohi) \<or> x \<in> cover bs)"
      by (simp add: cover_Cons)
    show "x \<in> cover (difference ((lo, hi) # as) ((olo, ohi) # bs))
        \<longleftrightarrow> x \<in> cover ((lo, hi) # as) - cover ((olo, ohi) # bs)"
      unfolding goal
    proof (cases "ohi \<le> lo")
      case True
      from "3.IH"(1) [OF True "3.prems"(1) q(3)]
      have "x \<in> cover (difference ((lo, hi) # as) bs) \<longleftrightarrow>
          ((lo \<le> x \<and> x < hi) \<or> x \<in> cover as) \<and> x \<notin> cover bs"
        by (simp add: cover_Cons)
      moreover have "difference ((lo, hi) # as) ((olo, ohi) # bs) = difference ((lo, hi) # as) bs"
        using True by simp
      ultimately show "x \<in> cover (difference ((lo, hi) # as) ((olo, ohi) # bs)) \<longleftrightarrow>
        ((lo \<le> x \<and> x < hi) \<or> x \<in> cover as) \<and> \<not> ((olo \<le> x \<and> x < ohi) \<or> x \<in> cover bs)"
        using True ax p by (simp only:) arith
    next
      case n1: False
      show "x \<in> cover (difference ((lo, hi) # as) ((olo, ohi) # bs)) \<longleftrightarrow>
        ((lo \<le> x \<and> x < hi) \<or> x \<in> cover as) \<and> \<not> ((olo \<le> x \<and> x < ohi) \<or> x \<in> cover bs)"
      proof (cases "hi \<le> olo")
        case True
        from "3.IH"(2) [OF n1 True p(3) "3.prems"(2)]
        have "x \<in> cover (difference as ((olo, ohi) # bs)) \<longleftrightarrow>
            x \<in> cover as \<and> \<not> ((olo \<le> x \<and> x < ohi) \<or> x \<in> cover bs)"
          by (simp add: cover_Cons)
        moreover have "difference ((lo, hi) # as) ((olo, ohi) # bs)
            = (lo, hi) # difference as ((olo, ohi) # bs)"
          using n1 True by simp
        ultimately show ?thesis
          using n1 True bx q by (simp only: cover_Cons Un_iff atLeastLessThan_iff) arith
      next
        case n2: False
        show ?thesis
        proof (cases "hi \<le> ohi")
          case h: True
          have "cover (difference as ((olo, ohi) # bs)) = cover as - cover ((olo, ohi) # bs)"
          proof (cases "olo \<le> lo")
            case True
            from "3.IH"(3) [OF n1 n2 True h p(3) "3.prems"(2)] show ?thesis .
          next
            case False
            from "3.IH"(5) [OF n1 n2 False h p(3) "3.prems"(2)] show ?thesis .
          qed
          then have e: "x \<in> cover (difference as ((olo, ohi) # bs)) \<longleftrightarrow>
            x \<in> cover as \<and> \<not> ((olo \<le> x \<and> x < ohi) \<or> x \<in> cover bs)"
            by (simp add: cover_Cons)
          show ?thesis
          proof (cases "olo \<le> lo")
            case True
            then have "difference ((lo, hi) # as) ((olo, ohi) # bs) = difference as ((olo, ohi) # bs)"
              using n1 n2 h by simp
            with e show ?thesis
              using n1 n2 h True ax bx p q by (simp only:) arith
          next
            case False
            then have "difference ((lo, hi) # as) ((olo, ohi) # bs)
                = (lo, olo) # difference as ((olo, ohi) # bs)"
              using n1 n2 h by simp
            with e show ?thesis
              using n1 n2 h False ax bx p q by (simp only: cover_Cons Un_iff atLeastLessThan_iff) arith
          qed
        next
          case h: False
          have v: "is_segmentlist ((ohi, hi) # as)" using h p by (simp add: is_segmentlist_Cons)
          have "cover (difference ((ohi, hi) # as) bs) = cover ((ohi, hi) # as) - cover bs"
          proof (cases "olo \<le> lo")
            case True
            from "3.IH"(4) [OF n1 n2 True h v q(3)] show ?thesis .
          next
            case False
            from "3.IH"(6) [OF n1 n2 False h v q(3)] show ?thesis .
          qed
          then have e: "x \<in> cover (difference ((ohi, hi) # as) bs) \<longleftrightarrow>
            ((ohi \<le> x \<and> x < hi) \<or> x \<in> cover as) \<and> x \<notin> cover bs"
            by (simp add: cover_Cons)
          show ?thesis
          proof (cases "olo \<le> lo")
            case True
            then have "difference ((lo, hi) # as) ((olo, ohi) # bs) = difference ((ohi, hi) # as) bs"
              using n1 n2 h by simp
            with e show ?thesis
              using n1 n2 h True ax bx p q by (simp only:) arith
          next
            case False
            then have "difference ((lo, hi) # as) ((olo, ohi) # bs)
                = (lo, olo) # difference ((ohi, hi) # as) bs"
              using n1 n2 h by simp
            with e show ?thesis
              using n1 n2 h False ax bx p q by (simp only: cover_Cons Un_iff atLeastLessThan_iff) arith
          qed
        qed
      qed
    qed
  qed
qed


lemma starts_after_intersect:
  "is_segmentlist A \<Longrightarrow> starts_after t A \<Longrightarrow> starts_after t (intersect A B)"
proof (induction A B rule: intersect.induct)
  case (1 bs)
  then show ?case by simp
next
  case (2 a as)
  then show ?case by simp
next
  case (3 lo hi as olo ohi bs)
  from "3.prems" have p: "lo < hi" "starts_after (hi + 1) as" "is_segmentlist as" "t \<le> lo"
    by (simp_all add: is_segmentlist_Cons)
  from p have tas: "starts_after t as" by (intro starts_after_mono [OF p(2)]) simp
  let ?R = "if hi < ohi then intersect as ((olo, ohi) # bs)
      else if ohi < hi then intersect ((lo, hi) # as) bs else intersect as bs"
  have R: "starts_after t ?R"
  proof -
    consider "hi < ohi" | "ohi < hi" | "hi = ohi" by linarith
    then show ?thesis
    proof cases
      case 1
      with "3.IH"(1) [OF 1 p(3) tas] show ?thesis by simp
    next
      case 2
      then have n: "\<not> hi < ohi" by simp
      with 2 "3.IH"(2) [OF n 2 "3.prems"] show ?thesis by simp
    next
      case 3
      with "3.IH"(3) [OF _ _ p(3) tas] show ?thesis by simp
    qed
  qed
  show ?case
  proof (cases "max lo olo < min hi ohi")
    case True
    with p show ?thesis by simp
  next
    case False
    then have "intersect ((lo, hi) # as) ((olo, ohi) # bs) = ?R" by simp
    with R show ?thesis by (simp only:)
  qed
qed

lemma cover_append: "cover (xs @ ys) = cover xs \<union> cover ys"
  by (simp add: cover_def)

lemma cover_piece: "x \<in> cover (if m < n then [(m, n)] else []) \<longleftrightarrow> m \<le> x \<and> x < n"
  by (simp add: cover_def)

lemma is_segmentlist_intersect:
  "is_segmentlist A \<Longrightarrow> is_segmentlist B \<Longrightarrow> is_segmentlist (intersect A B)"
proof (induction A B rule: intersect.induct)
  case (1 bs)
  then show ?case by simp
next
  case (2 a as)
  then show ?case by simp
next
  case (3 lo hi as olo ohi bs)
  from "3.prems"(1) have p: "lo < hi" "starts_after (hi + 1) as" "is_segmentlist as"
    by (simp_all add: is_segmentlist_Cons)
  from "3.prems"(2) have q: "olo < ohi" "starts_after (ohi + 1) bs" "is_segmentlist bs"
    by (simp_all add: is_segmentlist_Cons)
  let ?R = "if hi < ohi then intersect as ((olo, ohi) # bs)
      else if ohi < hi then intersect ((lo, hi) # as) bs else intersect as bs"
  have R: "is_segmentlist ?R \<and> starts_after (min hi ohi + 1) ?R"
  proof -
    consider "hi < ohi" | "ohi < hi" | "hi = ohi" by linarith
    then show ?thesis
    proof cases
      case 1
      from "3.IH"(1) [OF 1 p(3) "3.prems"(2)] starts_after_intersect [OF p(3) p(2)] 1
      show ?thesis by simp
    next
      case 2
      then have n: "\<not> hi < ohi" by simp
      have "starts_after (ohi + 1) (intersect bs ((lo, hi) # as))"
        using q by (intro starts_after_intersect)
      then have "starts_after (ohi + 1) (intersect ((lo, hi) # as) bs)"
        by (simp only: intersect_commute [of bs])
      with "3.IH"(2) [OF n 2 "3.prems"(1) q(3)] 2 n show ?thesis by simp
    next
      case 3
      from "3.IH"(3) [OF _ _ p(3) q(3)] starts_after_intersect [OF p(3) p(2)] 3
      show ?thesis by simp
    qed
  qed
  show ?case
  proof (cases "max lo olo < min hi ohi")
    case True
    then have "intersect ((lo, hi) # as) ((olo, ohi) # bs) = (max lo olo, min hi ohi) # ?R"
      by simp
    with True R show ?thesis by (simp only: is_segmentlist_Cons)
  next
    case False
    then have "intersect ((lo, hi) # as) ((olo, ohi) # bs) = ?R" by simp
    with R show ?thesis by (simp only:)
  qed
qed

lemma cover_intersect:
  "is_segmentlist A \<Longrightarrow> is_segmentlist B \<Longrightarrow> cover (intersect A B) = cover A \<inter> cover B"
proof (induction A B rule: intersect.induct)
  case (1 bs)
  then show ?case by (simp add: cover_Nil)
next
  case (2 a as)
  then show ?case by (simp add: cover_Nil)
next
  case (3 lo hi as olo ohi bs)
  from "3.prems"(1) have p: "lo < hi" "starts_after (hi + 1) as" "is_segmentlist as"
    by (simp_all add: is_segmentlist_Cons)
  from "3.prems"(2) have q: "olo < ohi" "starts_after (ohi + 1) bs" "is_segmentlist bs"
    by (simp_all add: is_segmentlist_Cons)
  let ?R = "if hi < ohi then intersect as ((olo, ohi) # bs)
      else if ohi < hi then intersect ((lo, hi) # as) bs else intersect as bs"
  show ?case
  proof (rule set_eqI)
    fix x
    have ax: "x \<in> cover as \<longrightarrow> hi + 1 \<le> x"
      using cover_after [OF p(3) p(2)] by blast
    have bx: "x \<in> cover bs \<longrightarrow> ohi + 1 \<le> x"
      using cover_after [OF q(3) q(2)] by blast
    have lhs: "x \<in> cover (intersect ((lo, hi) # as) ((olo, ohi) # bs)) \<longleftrightarrow>
        (max lo olo \<le> x \<and> x < min hi ohi) \<or> x \<in> cover ?R"
      by (simp only: intersect.simps cover_append Un_iff cover_piece)
    have rhs: "x \<in> cover ((lo, hi) # as) \<inter> cover ((olo, ohi) # bs) \<longleftrightarrow>
        ((lo \<le> x \<and> x < hi) \<or> x \<in> cover as) \<and> ((olo \<le> x \<and> x < ohi) \<or> x \<in> cover bs)"
      by (simp add: cover_Cons)
    have R: "x \<in> cover ?R \<longleftrightarrow>
        (if hi < ohi then x \<in> cover as \<and> ((olo \<le> x \<and> x < ohi) \<or> x \<in> cover bs)
         else if ohi < hi then ((lo \<le> x \<and> x < hi) \<or> x \<in> cover as) \<and> x \<in> cover bs
         else x \<in> cover as \<and> x \<in> cover bs)"
    proof -
      consider "hi < ohi" | "ohi < hi" | "hi = ohi" by linarith
      then show ?thesis
      proof cases
        case 1
        from "3.IH"(1) [OF 1 p(3) "3.prems"(2)] 1 show ?thesis by (simp add: cover_Cons)
      next
        case 2
        then have n: "\<not> hi < ohi" by simp
        from "3.IH"(2) [OF n 2 "3.prems"(1) q(3)] 2 n show ?thesis by (simp add: cover_Cons)
      next
        case 3
        from "3.IH"(3) [OF _ _ p(3) q(3)] 3 show ?thesis by simp
      qed
    qed
    show "x \<in> cover (intersect ((lo, hi) # as) ((olo, ohi) # bs))
        \<longleftrightarrow> x \<in> cover ((lo, hi) # as) \<inter> cover ((olo, ohi) # bs)"
      unfolding lhs rhs R
    proof -
      consider "hi < ohi" | "ohi < hi" | "hi = ohi" by linarith
      then show "(max lo olo \<le> x \<and> x < min hi ohi \<or>
           (if hi < ohi then x \<in> cover as \<and> (olo \<le> x \<and> x < ohi \<or> x \<in> cover bs)
            else if ohi < hi then (lo \<le> x \<and> x < hi \<or> x \<in> cover as) \<and> x \<in> cover bs
                 else x \<in> cover as \<and> x \<in> cover bs)) =
          ((lo \<le> x \<and> x < hi \<or> x \<in> cover as) \<and> (olo \<le> x \<and> x < ohi \<or> x \<in> cover bs))"
      proof cases
        case 1
        with ax bx p q show ?thesis by (simp only: if_True) auto
      next
        case 2
        then have "\<not> hi < ohi" by simp
        with 2 ax bx p q show ?thesis by (simp only: if_True if_False) auto
      next
        case 3
        then have "\<not> hi < ohi" "\<not> ohi < hi" by simp_all
        with 3 ax bx p q show ?thesis by (simp only: if_False) auto
      qed
    qed
  qed
qed

section \<open>The site comparison\<close>






section \<open>Physical file names\<close>

lemma count_list_distinct: "distinct xs \<Longrightarrow> x \<in> set xs \<Longrightarrow> count_list xs x = 1"
  by (induction xs) auto

text \<open>
  C5. For every File, a second \<open>add_pfn\<close> with the same path and site changes nothing,
  and after the two calls the PFN list (an ordered set) holds the pair exactly once.
\<close>

theorem add_pfn_idempotent:
  "add_pfn (add_pfn f path site) path site = add_pfn f path site
   \<and> (distinct (f_pfns f) \<longrightarrow>
        distinct (f_pfns (add_pfn (add_pfn f path site) path site))
        \<and> count_list (f_pfns (add_pfn (add_pfn f path site) path site)) (path, site) = 1)"
  by (auto simp: add_pfn_def count_list_distinct)

theorem add_pfn_idempotent_witness:
  "distinct (f_pfns example_file)
   \<and> f_pfns (add_pfn (add_pfn example_file ''/a'' ''local'') ''/a'' ''local'')
      = [(''/b'', ''osg''), (''/a'', ''local'')]
   \<and> count_list (f_pfns (add_pfn (add_pfn example_file ''/a'' ''local'') ''/a'' ''local''))
        (''/a'', ''local'') = 1"
  using add_pfn_idempotent [of example_file "''/a''" "''local''"]
  by (simp add: add_pfn_def example_file_def)

section \<open>The configuration\<close>




section \<open>The optional tags argument\<close>

text \<open>
  C9. \<open>get_ipn_sky_files\<close> and \<open>make_gating_node\<close> return, for \<open>tags=None\<close>, what they
  return for \<open>tags=[]\<close>, all other arguments being the same.
\<close>

theorem tags_None_as_empty:
  "get_ipn_sky_files resolve_url_to_file workflow file_url None =
     get_ipn_sky_files resolve_url_to_file workflow file_url (Some [])
   \<and> make_gating_node js workflow datafind_files outdir None =
     make_gating_node js workflow datafind_files outdir (Some [])"
  by (simp add: get_ipn_sky_files_def make_gating_node_def)

section \<open>get_coh_PTF_files\<close>

text \<open>
  C8, as the claim states it, fails in its second half: with LAL_SRC set and both flags
  false, a configuration without a workflow section makes the function raise
  NoSectionError; it does not return the empty FileList.
\<close>

theorem get_coh_PTF_files_no_config:
  "get_coh_PTF_files example_py [''LAL_SRC'' \<mapsto> ''/src/lalsuite''] Map.empty
     ''H1L1'' ''/run'' False False example_world
   = (example_world, Inl (NoSectionError ''workflow''))"
  by (simp add: get_coh_PTF_files_def workflow_segment_def cp_get_def)

text \<open>
  C8, amended. When LAL_SRC is unset, \<open>get_coh_PTF_files\<close> raises ValueError with no
  copy made and no File constructed. When LAL_SRC is set, both flags are false, and the
  configuration holds workflow start-time and end-time values that convert to integers
  from which the segment is constructed, it returns the empty FileList, again with no
  copy made and no File constructed. When LAL_SRC is set and reading the segment from
  the configuration raises, the function raises that error, the world unchanged.
\<close>

theorem get_coh_PTF_files_guard:
  "(getenv ''LAL_SRC'' = None \<longrightarrow>
      get_coh_PTF_files py getenv cp ifos run_dir bank_veto summary_files w =
        (w, Inl (ValueError
          ''The environment variable LAL_SRC must be set to a location containing the file lalsuite.git'')))
   \<and> (getenv ''LAL_SRC'' \<noteq> None \<longrightarrow>
        cp_get cp ''workflow'' ''start-time'' = Inr s \<longrightarrow> to_int py s = Inr a \<longrightarrow>
        cp_get cp ''workflow'' ''end-time'' = Inr t \<longrightarrow> to_int py t = Inr b \<longrightarrow>
        new_segment py a b = Inr sci_seg \<longrightarrow>
        get_coh_PTF_files py getenv cp ifos run_dir False False w = (w, Inr []))
   \<and> (getenv ''LAL_SRC'' \<noteq> None \<longrightarrow> workflow_segment py cp = Inl e \<longrightarrow>
        get_coh_PTF_files py getenv cp ifos run_dir bank_veto summary_files w = (w, Inl e))"
  by (auto simp: get_coh_PTF_files_def workflow_segment_def)

theorem get_coh_PTF_files_guard_witness:
  "(Map.empty :: string \<rightharpoonup> string) ''LAL_SRC'' = None
   \<and> get_coh_PTF_files example_py Map.empty example_cp ''H1L1'' ''/run'' True True example_world
       = (example_world, Inl (ValueError
          ''The environment variable LAL_SRC must be set to a location containing the file lalsuite.git''))
   \<and> [''LAL_SRC'' \<mapsto> ''/src/lalsuite''] ''LAL_SRC'' \<noteq> None
   \<and> cp_get example_cp ''workflow'' ''start-time'' = Inr ''5'' \<and> to_int example_py ''5'' = Inr 5
   \<and> cp_get example_cp ''workflow'' ''end-time'' = Inr ''20'' \<and> to_int example_py ''20'' = Inr 20
   \<and> new_segment example_py 5 20 = Inr (5, 20)
   \<and> get_coh_PTF_files example_py [''LAL_SRC'' \<mapsto> ''/src/lalsuite''] example_cp
        ''H1L1'' ''/run'' False False example_world
       = (example_world, Inr [])
   \<and> workflow_segment example_py [''workflow'' \<mapsto> [''start-time'' \<mapsto> ''5'']]
       = Inl (NoOptionError ''end-time'' ''workflow'')
   \<and> get_coh_PTF_files example_py [''LAL_SRC'' \<mapsto> ''/src/lalsuite'']
        [''workflow'' \<mapsto> [''start-time'' \<mapsto> ''5'']] ''H1L1'' ''/run'' True False example_world
       = (example_world, Inl (NoOptionError ''end-time'' ''workflow''))"
  using get_coh_PTF_files_guard [where getenv = "Map.empty" and py = example_py
      and cp = example_cp and ifos = "''H1L1''" and run_dir = "''/run''"
      and bank_veto = True and summary_files = True and w = example_world]
    get_coh_PTF_files_guard [where getenv = "[''LAL_SRC'' \<mapsto> ''/src/lalsuite'']"
      and cp = example_cp and s = "''5''" and py = example_py and a = 5 and t = "''20''"
      and b = 20 and sci_seg = "(5, 20)" and ifos = "''H1L1''" and run_dir = "''/run''"
      and w = example_world]
    get_coh_PTF_files_guard [where getenv = "[''LAL_SRC'' \<mapsto> ''/src/lalsuite'']"
      and cp = "[''workflow'' \<mapsto> [''start-time'' \<mapsto> ''5'']]" and py = example_py
      and e = "NoOptionError ''end-time'' ''workflow''" and ifos = "''H1L1''" and run_dir = "''/run''"
      and bank_veto = True and summary_files = False and w = example_world]
  by (simp add: cp_get_def example_cp_def example_py_def workflow_segment_def)

section \<open>The external-trigger row\<close>

text \<open>One pass of the loop over the columns, by what the row and the column are.\<close>

lemma fill_empty_step:
  "fill_empty z ((entry, kind) # cols) row =
     (case row entry of
        Some v \<Rightarrow> fill_empty z cols row
      | None \<Rightarrow> (case default_value z entry kind of
                   Some d \<Rightarrow> fill_empty z cols (row(entry \<mapsto> d))
                 | None \<Rightarrow> Inl (ValueError (''Column '' @ entry @ '' not recognized''))))"
  by (simp add: default_value_def split: option.splits)


lemma fill_empty_keeps:
  "fill_empty z cols row = Inr row' \<Longrightarrow> row e = Some v \<Longrightarrow> row' e = Some v"
proof (induction cols arbitrary: row)
  case Nil
  then show ?case by simp
next
  case (Cons c cols)
  obtain entry kind where c: "c = (entry, kind)" by (cases c)
  show ?case
  proof (cases "row entry")
    case (Some u)
    with Cons c show ?thesis by (simp only: fill_empty_step option.case)
  next
    case None
    with Cons.prems(2) have ne: "e \<noteq> entry" by auto
    from None Cons.prems(1) c obtain d where
      d: "default_value z entry kind = Some d" and
      r: "fill_empty z cols (row(entry \<mapsto> d)) = Inr row'"
      by (cases "default_value z entry kind") (simp_all only: fill_empty_step option.case sum.distinct)
    from ne Cons.prems(2) have "(row(entry \<mapsto> d)) e = Some v" by simp
    with r show ?thesis by (rule Cons.IH)
  qed
qed

lemma fill_empty_sets:
  "fill_empty z cols row = Inr row' \<Longrightarrow> (e, k) \<in> set cols \<Longrightarrow> row' e \<noteq> None"
proof (induction cols arbitrary: row)
  case Nil
  then show ?case by simp
next
  case (Cons c cols)
  obtain entry kind where c: "c = (entry, kind)" by (cases c)
  show ?case
  proof (cases "row entry")
    case (Some u)
    with Cons.prems(1) c have r: "fill_empty z cols row = Inr row'"
      by (simp only: fill_empty_step option.case)
    show ?thesis
    proof (cases "e = entry")
      case True
      with Some fill_empty_keeps [OF r] show ?thesis by simp
    next
      case False
      with Cons.prems(2) c have "(e, k) \<in> set cols" by simp
      with r show ?thesis by (rule Cons.IH)
    qed
  next
    case None
    from None Cons.prems(1) c obtain d where
      d: "default_value z entry kind = Some d" and
      r: "fill_empty z cols (row(entry \<mapsto> d)) = Inr row'"
      by (cases "default_value z entry kind") (simp_all only: fill_empty_step option.case sum.distinct)
    show ?thesis
    proof (cases "e = entry")
      case True
      have "(row(entry \<mapsto> d)) entry = Some d" by simp
      with r have "row' entry = Some d" by (rule fill_empty_keeps)
      with True show ?thesis by simp
    next
      case False
      with Cons.prems(2) c have "(e, k) \<in> set cols" by simp
      with r show ?thesis by (rule Cons.IH)
    qed
  qed
qed

lemma fill_empty_untouched:
  "fill_empty z cols row = Inr row' \<Longrightarrow> e \<notin> fst ` set cols \<Longrightarrow> row' e = row e"
proof (induction cols arbitrary: row)
  case Nil
  then show ?case by simp
next
  case (Cons c cols)
  obtain entry kind where c: "c = (entry, kind)" by (cases c)
  with Cons.prems(2) have ne: "e \<noteq> entry" and notin: "e \<notin> fst ` set cols" by auto
  show ?case
  proof (cases "row entry")
    case (Some u)
    with Cons.prems(1) c have r: "fill_empty z cols row = Inr row'"
      by (simp only: fill_empty_step option.case)
    from r notin show ?thesis by (rule Cons.IH)
  next
    case None
    from None Cons.prems(1) c obtain d where
      r: "fill_empty z cols (row(entry \<mapsto> d)) = Inr row'"
      by (cases "default_value z entry kind") (simp_all only: fill_empty_step option.case sum.distinct)
    from r notin have "row' e = (row(entry \<mapsto> d)) e" by (rule Cons.IH)
    with ne show ?thesis by simp
  qed
qed

lemma fill_empty_default:
  "fill_empty z cols row = Inr row' \<Longrightarrow> distinct (map fst cols) \<Longrightarrow> (e, k) \<in> set cols \<Longrightarrow>
   row e = None \<Longrightarrow> row' e = default_value z e k"
proof (induction cols arbitrary: row)
  case Nil
  then show ?case by simp
next
  case (Cons c cols)
  obtain entry kind where c: "c = (entry, kind)" by (cases c)
  from Cons.prems(2) c have dist: "distinct (map fst cols)" and fresh: "entry \<notin> fst ` set cols"
    by simp_all
  show ?case
  proof (cases "(e, k) = (entry, kind)")
    case True
    then have ek: "e = entry" "k = kind" by simp_all
    from Cons.prems(4) ek have None: "row entry = None" by simp
    from None Cons.prems(1) c obtain d where
      d: "default_value z entry kind = Some d" and
      r: "fill_empty z cols (row(entry \<mapsto> d)) = Inr row'"
      by (cases "default_value z entry kind") (simp_all only: fill_empty_step option.case sum.distinct)
    from r fresh have "row' entry = (row(entry \<mapsto> d)) entry" by (rule fill_empty_untouched)
    with d ek show ?thesis by simp
  next
    case False
    with Cons.prems(3) c have mem: "(e, k) \<in> set cols" by auto
    with fresh have ne: "e \<noteq> entry" by force
    show ?thesis
    proof (cases "row entry")
      case (Some u)
      with Cons.prems(1) c have r: "fill_empty z cols row = Inr row'"
        by (simp only: fill_empty_step option.case)
      from r dist mem Cons.prems(4) show ?thesis by (rule Cons.IH)
    next
      case None
      from None Cons.prems(1) c obtain d where
        r: "fill_empty z cols (row(entry \<mapsto> d)) = Inr row'"
        by (cases "default_value z entry kind") (simp_all only: fill_empty_step option.case sum.distinct)
      from ne Cons.prems(4) have "(row(entry \<mapsto> d)) e = None" by simp
      with r dist mem show ?thesis by (rule Cons.IH)
    qed
  qed
qed


lemma fill_empty_error:
  "fill_empty z cols row = Inl err \<Longrightarrow>
   \<exists>e k. (e, k) \<in> set cols \<and> row e = None \<and> default_value z e k = None
      \<and> err = ValueError (''Column '' @ e @ '' not recognized'')"
proof (induction cols arbitrary: row)
  case Nil
  then show ?case by simp
next
  case (Cons c cols)
  obtain entry kind where c: "c = (entry, kind)" by (cases c)
  show ?case
  proof (cases "row entry")
    case (Some u)
    with Cons.prems c have r: "fill_empty z cols row = Inl err"
      by (simp only: fill_empty_step option.case)
    from Cons.IH [OF r] show ?thesis by auto
  next
    case None
    show ?thesis
    proof (cases "default_value z entry kind")
      case dNone: None
      with None Cons.prems c have "err = ValueError (''Column '' @ entry @ '' not recognized'')"
        by (simp only: fill_empty_step option.case sum.inject)
      with None dNone c show ?thesis by auto
    next
      case (Some d)
      with None Cons.prems c have r: "fill_empty z cols (row(entry \<mapsto> d)) = Inl err"
        by (simp only: fill_empty_step option.case)
      from Cons.IH [OF r] obtain e k where
        ek: "(e, k) \<in> set cols" "(row(entry \<mapsto> d)) e = None" "default_value z e k = None"
          "err = ValueError (''Column '' @ e @ '' not recognized'')"
        by blast
      from ek(2) have "row e = None" by (cases "e = entry") simp_all
      with ek show ?thesis by auto
    qed
  qed
qed

lemma fill_empty_raises:
  "distinct (map fst cols) \<Longrightarrow> (e, k) \<in> set cols \<Longrightarrow> row e = None \<Longrightarrow>
   default_value z e k = None \<Longrightarrow> \<exists>err. fill_empty z cols row = Inl err"
proof (cases "fill_empty z cols row")
  case (Inl err)
  then show ?thesis by simp
next
  case (Inr row')
  assume "distinct (map fst cols)" "(e, k) \<in> set cols" "row e = None" "default_value z e k = None"
  with fill_empty_default [OF Inr] fill_empty_sets [OF Inr] show ?thesis by fastforce
qed

lemma known_attributes_Inr:
  "known_attributes py cp row = Inr row' \<Longrightarrow>
   \<exists>ra event_ra dec event_dec tt start_time trigger_name.
      cp_get cp ''workflow'' ''ra'' = Inr ra \<and> to_float py ra = Inr event_ra \<and>
      cp_get cp ''workflow'' ''dec'' = Inr dec \<and> to_float py dec = Inr event_dec \<and>
      cp_get cp ''workflow'' ''trigger-time'' = Inr tt \<and> to_int py tt = Inr start_time \<and>
      cp_get cp ''workflow'' ''trigger-name'' = Inr trigger_name \<and>
      row' = row(''event_ra'' \<mapsto> VFloat event_ra, ''event_dec'' \<mapsto> VFloat event_dec,
                 ''start_time'' \<mapsto> VInt start_time, ''event_number_grb'' \<mapsto> VStr trigger_name)"
  unfolding known_attributes_def
  by (simp split: sum.splits)

lemma known_row_dom:
  "known_attributes py cp Map.empty = Inr r0 \<Longrightarrow> (r0 e = None) = (e \<notin> set known_columns)"
  by (drule known_attributes_Inr) (auto simp: known_columns_def)

lemma exttrig_row_Inr:
  "exttrig_row py cols cp = Inr row \<Longrightarrow>
   \<exists>r0. known_attributes py cp Map.empty = Inr r0 \<and> fill_empty (fzero py) cols r0 = Inr row"
  by (simp add: exttrig_row_def split: sum.splits)

lemma exttrig_row_Inl:
  "exttrig_row py cols cp = Inl err \<Longrightarrow>
   known_attributes py cp Map.empty = Inl err
   \<or> (\<exists>r0. known_attributes py cp Map.empty = Inr r0 \<and> fill_empty (fzero py) cols r0 = Inl err)"
  by (simp add: exttrig_row_def split: sum.splits)

lemma exttrig_row_values:
  assumes "exttrig_row py cols cp = Inr row"
  shows "\<exists>ra event_ra dec event_dec tt start_time trigger_name.
      cp_get cp ''workflow'' ''ra'' = Inr ra \<and> to_float py ra = Inr event_ra \<and>
      cp_get cp ''workflow'' ''dec'' = Inr dec \<and> to_float py dec = Inr event_dec \<and>
      cp_get cp ''workflow'' ''trigger-time'' = Inr tt \<and> to_int py tt = Inr start_time \<and>
      cp_get cp ''workflow'' ''trigger-name'' = Inr trigger_name \<and>
      row ''event_ra'' = Some (VFloat event_ra) \<and> row ''event_dec'' = Some (VFloat event_dec) \<and>
      row ''start_time'' = Some (VInt start_time) \<and>
      row ''event_number_grb'' = Some (VStr trigger_name)"
proof -
  from assms obtain r0 where k: "known_attributes py cp Map.empty = Inr r0"
    and f: "fill_empty (fzero py) cols r0 = Inr row"
    using exttrig_row_Inr by blast
  from known_attributes_Inr [OF k] obtain ra event_ra dec event_dec tt start_time trigger_name where
    c: "cp_get cp ''workflow'' ''ra'' = Inr ra" "to_float py ra = Inr event_ra"
      "cp_get cp ''workflow'' ''dec'' = Inr dec" "to_float py dec = Inr event_dec"
      "cp_get cp ''workflow'' ''trigger-time'' = Inr tt" "to_int py tt = Inr start_time"
      "cp_get cp ''workflow'' ''trigger-name'' = Inr trigger_name"
    and r0: "r0 = Map.empty(''event_ra'' \<mapsto> VFloat event_ra, ''event_dec'' \<mapsto> VFloat event_dec,
                 ''start_time'' \<mapsto> VInt start_time, ''event_number_grb'' \<mapsto> VStr trigger_name)"
    by blast
  have "row ''event_ra'' = Some (VFloat event_ra)"
    by (rule fill_empty_keeps [OF f]) (simp add: r0)
  moreover have "row ''event_dec'' = Some (VFloat event_dec)"
    by (rule fill_empty_keeps [OF f]) (simp add: r0)
  moreover have "row ''start_time'' = Some (VInt start_time)"
    by (rule fill_empty_keeps [OF f]) (simp add: r0)
  moreover have "row ''event_number_grb'' = Some (VStr trigger_name)"
    by (rule fill_empty_keeps [OF f]) (simp add: r0)
  ultimately show ?thesis using c by blast
qed

lemma exttrig_row_columns:
  assumes "distinct (map fst cols)" "exttrig_row py cols cp = Inr row" "(entry, kind) \<in> set cols"
  shows "row entry \<noteq> None"
    and "entry \<notin> set known_columns \<Longrightarrow> row entry = default_value (fzero py) entry kind"
proof -
  from assms(2) obtain r0 where k: "known_attributes py cp Map.empty = Inr r0"
    and f: "fill_empty (fzero py) cols r0 = Inr row"
    using exttrig_row_Inr by blast
  from f assms(3) show "row entry \<noteq> None" by (rule fill_empty_sets)
  assume "entry \<notin> set known_columns"
  with known_row_dom [OF k] have "r0 entry = None" by simp
  with f assms(1,3) show "row entry = default_value (fzero py) entry kind"
    by (rule fill_empty_default)
qed

lemma exttrig_row_error:
  assumes "exttrig_row py cols cp = Inl err"
  shows "known_attributes py cp Map.empty = Inl err
     \<or> (\<exists>entry kind. (entry, kind) \<in> set cols \<and> entry \<notin> set known_columns
           \<and> default_value (fzero py) entry kind = None
           \<and> err = ValueError (''Column '' @ entry @ '' not recognized''))"
proof (cases "known_attributes py cp Map.empty = Inl err")
  case True
  then show ?thesis by simp
next
  case False
  with exttrig_row_Inl [OF assms] obtain r0 where k: "known_attributes py cp Map.empty = Inr r0"
    and f: "fill_empty (fzero py) cols r0 = Inl err" by blast
  from fill_empty_error [OF f] obtain e k' where
    ek: "(e, k') \<in> set cols" "r0 e = None" "default_value (fzero py) e k' = None"
      "err = ValueError (''Column '' @ e @ '' not recognized'')" by blast
  from ek(2) known_row_dom [OF k] have "e \<notin> set known_columns" by simp
  with ek show ?thesis by blast
qed

lemma exttrig_row_raises:
  assumes "distinct (map fst cols)" "known_attributes py cp Map.empty = Inr r0"
    "(entry, kind) \<in> set cols" "entry \<notin> set known_columns"
    "default_value (fzero py) entry kind = None"
  shows "\<exists>e k. (e, k) \<in> set cols \<and> e \<notin> set known_columns
           \<and> default_value (fzero py) e k = None
           \<and> exttrig_row py cols cp = Inl (ValueError (''Column '' @ e @ '' not recognized''))"
proof -
  from assms(4) known_row_dom [OF assms(2)] have "r0 entry = None" by simp
  with fill_empty_raises [OF assms(1,3) _ assms(5)] obtain err where
    f: "fill_empty (fzero py) cols r0 = Inl err" by blast
  with assms(2) have x: "exttrig_row py cols cp = Inl err" by (simp add: exttrig_row_def)
  from fill_empty_error [OF f] obtain e k' where
    ek: "(e, k') \<in> set cols" "r0 e = None" "default_value (fzero py) e k' = None"
      "err = ValueError (''Column '' @ e @ '' not recognized'')" by blast
  from ek(2) known_row_dom [OF assms(2)] have "e \<notin> set known_columns" by simp
  with ek x show ?thesis by blast
qed

lemma make_exttrig_file_written:
  "make_exttrig_file py cols cp ifos sci_seg out_dir w = (w', Inr xml_file) \<Longrightarrow>
   \<exists>r path. exttrig_row py cols cp = Inr r \<and> written w' = written w @ [(path, r)]"
  by (auto simp: make_exttrig_file_def write_filename_def new_File_def Let_def
      split: sum.splits if_splits)

lemma make_exttrig_file_raises:
  "exttrig_row py cols cp = Inl err \<Longrightarrow>
   make_exttrig_file py cols cp ifos sci_seg out_dir w = (w, Inl err)"
  by (simp add: make_exttrig_file_def)

text \<open>
  C6. \<open>make_exttrig_file\<close> leaves no column of the row unset: the document it writes
  holds the row built from the configuration, and it raises what building the row
  raises. When the row is built, event_ra, event_dec, start_time and event_number_grb
  hold the values read from the configuration, every column of the table is set, and
  every other column holds the default of its kind: \<open>0.\<close> for real_4 and real_8, \<open>0\<close> for int_4s and int_8s, the
  empty string for lstring, and \<open>0\<close> for process_id and event_id of any other kind.
  When building the row fails after the configuration was read, the error is the
  ValueError that names a column that is neither set nor recognized; and whenever the
  table has such a column, the function raises that error for one: no such column is
  skipped.
\<close>

theorem exttrig_row_complete:
  assumes "distinct (map fst cols)"
  shows
   "(make_exttrig_file py cols cp ifos sci_seg out_dir w = (w', Inr xml_file) \<longrightarrow>
       (\<exists>r path. exttrig_row py cols cp = Inr r \<and> written w' = written w @ [(path, r)]))
    \<and> (exttrig_row py cols cp = Inl err \<longrightarrow>
         make_exttrig_file py cols cp ifos sci_seg out_dir w = (w, Inl err))
    \<and> (exttrig_row py cols cp = Inr row \<longrightarrow>
       (\<exists>ra event_ra dec event_dec tt start_time trigger_name.
          cp_get cp ''workflow'' ''ra'' = Inr ra \<and> to_float py ra = Inr event_ra \<and>
          cp_get cp ''workflow'' ''dec'' = Inr dec \<and> to_float py dec = Inr event_dec \<and>
          cp_get cp ''workflow'' ''trigger-time'' = Inr tt \<and> to_int py tt = Inr start_time \<and>
          cp_get cp ''workflow'' ''trigger-name'' = Inr trigger_name \<and>
          row ''event_ra'' = Some (VFloat event_ra) \<and> row ''event_dec'' = Some (VFloat event_dec) \<and>
          row ''start_time'' = Some (VInt start_time) \<and>
          row ''event_number_grb'' = Some (VStr trigger_name))
       \<and> (\<forall>(entry, kind) \<in> set cols. row entry \<noteq> None \<and>
             (entry \<notin> set known_columns \<longrightarrow> row entry = default_value (fzero py) entry kind)))
    \<and> (exttrig_row py cols cp = Inl err \<longrightarrow>
         known_attributes py cp Map.empty = Inl err
         \<or> (\<exists>entry kind. (entry, kind) \<in> set cols \<and> entry \<notin> set known_columns
               \<and> default_value (fzero py) entry kind = None
               \<and> err = ValueError (''Column '' @ entry @ '' not recognized'')))
    \<and> (known_attributes py cp Map.empty = Inr r0 \<and> (c, k) \<in> set cols \<and> c \<notin> set known_columns
          \<and> default_value (fzero py) c k = None \<longrightarrow>
         (\<exists>entry kind. (entry, kind) \<in> set cols \<and> entry \<notin> set known_columns
               \<and> default_value (fzero py) entry kind = None
               \<and> exttrig_row py cols cp = Inl (ValueError (''Column '' @ entry @ '' not recognized''))))"
proof (intro conjI impI)
  assume "make_exttrig_file py cols cp ifos sci_seg out_dir w = (w', Inr xml_file)"
  then show "\<exists>r path. exttrig_row py cols cp = Inr r \<and> written w' = written w @ [(path, r)]"
    by (rule make_exttrig_file_written)
next
  assume "exttrig_row py cols cp = Inl err"
  then show "make_exttrig_file py cols cp ifos sci_seg out_dir w = (w, Inl err)"
    by (rule make_exttrig_file_raises)
next
  assume "exttrig_row py cols cp = Inr row"
  then show "\<exists>ra event_ra dec event_dec tt start_time trigger_name.
          cp_get cp ''workflow'' ''ra'' = Inr ra \<and> to_float py ra = Inr event_ra \<and>
          cp_get cp ''workflow'' ''dec'' = Inr dec \<and> to_float py dec = Inr event_dec \<and>
          cp_get cp ''workflow'' ''trigger-time'' = Inr tt \<and> to_int py tt = Inr start_time \<and>
          cp_get cp ''workflow'' ''trigger-name'' = Inr trigger_name \<and>
          row ''event_ra'' = Some (VFloat event_ra) \<and> row ''event_dec'' = Some (VFloat event_dec) \<and>
          row ''start_time'' = Some (VInt start_time) \<and>
          row ''event_number_grb'' = Some (VStr trigger_name)"
    by (rule exttrig_row_values)
next
  assume r: "exttrig_row py cols cp = Inr row"
  show "\<forall>(entry, kind) \<in> set cols. row entry \<noteq> None \<and>
             (entry \<notin> set known_columns \<longrightarrow> row entry = default_value (fzero py) entry kind)"
    using exttrig_row_columns [OF assms r] by blast
next
  assume "exttrig_row py cols cp = Inl err"
  then show "known_attributes py cp Map.empty = Inl err
         \<or> (\<exists>entry kind. (entry, kind) \<in> set cols \<and> entry \<notin> set known_columns
               \<and> default_value (fzero py) entry kind = None
               \<and> err = ValueError (''Column '' @ entry @ '' not recognized''))"
    by (rule exttrig_row_error)
next
  assume "known_attributes py cp Map.empty = Inr r0 \<and> (c, k) \<in> set cols \<and> c \<notin> set known_columns
          \<and> default_value (fzero py) c k = None"
  then show "\<exists>entry kind. (entry, kind) \<in> set cols \<and> entry \<notin> set known_columns
               \<and> default_value (fzero py) entry kind = None
               \<and> exttrig_row py cols cp = Inl (ValueError (''Column '' @ entry @ '' not recognized''))"
    using exttrig_row_raises [OF assms] by blast
qed

lemma example_known:
  "known_attributes example_py example_grb_cp Map.empty =
     Inr [''event_ra'' \<mapsto> VFloat ''1.5'', ''event_dec'' \<mapsto> VFloat ''-0.5'', ''start_time'' \<mapsto> VInt 20,
      ''event_number_grb'' \<mapsto> VStr ''100928A'']"
  by (simp add: known_attributes_def example_py_def example_grb_cp_def cp_get_def)

lemma example_ok:
  "exttrig_row example_py example_cols example_grb_cp = Inr example_row"
  by (simp add: exttrig_row_def example_known example_cols_def example_row_def)
     (simp add: example_py_def)

lemma example_bad:
  "exttrig_row example_py (example_cols @ [(''notice_id'', ''ilwd:char'')]) example_grb_cp =
     Inl (ValueError ''Column notice_id not recognized'')"
  by (simp add: exttrig_row_def example_known example_cols_def)

lemma example_file_made:
  "make_exttrig_file example_py example_cols example_grb_cp ''H1L1'' (0, 10) ''/out'' example_world =
     (example_world
        \<lparr>written := [(''/out/triggerGRB100928A.xml'', example_row)],
         created := [\<lparr>f_ifo = ''H1L1'', f_exe_name = ''triggerGRB100928A.xml'', f_segs = (0, 10),
            f_url = ''file:///out/triggerGRB100928A.xml'',
            f_path = ''file:///out/triggerGRB100928A.xml'', f_pfns = []\<rparr>]\<rparr>,
      Inr \<lparr>f_ifo = ''H1L1'', f_exe_name = ''triggerGRB100928A.xml'', f_segs = (0, 10),
            f_url = ''file:///out/triggerGRB100928A.xml'',
            f_path = ''file:///out/triggerGRB100928A.xml'',
            f_pfns = [(''file:///out/triggerGRB100928A.xml'', ''local'')]\<rparr>)"
  by (simp add: make_exttrig_file_def example_ok)
     (simp add: example_grb_cp_def cp_get_def example_py_def example_world_def
        write_filename_def new_File_def add_pfn_def Let_def)

theorem exttrig_row_complete_witness:
  "distinct (map fst example_cols)
   \<and> written (fst (make_exttrig_file example_py example_cols example_grb_cp ''H1L1'' (0, 10) ''/out''
          example_world)) = [(''/out/triggerGRB100928A.xml'', example_row)]
   \<and> exttrig_row example_py example_cols example_grb_cp = Inr example_row
   \<and> list_all (\<lambda>(entry, kind). example_row entry \<noteq> None) example_cols
   \<and> example_row ''event_ra'' = Some (VFloat ''1.5'')
   \<and> example_row ''process_id'' = Some (VInt 0)
   \<and> example_row ''det_name'' = Some (VStr [])
   \<and> example_row ''event_z'' = Some (VFloat (fzero example_py))
   \<and> distinct (map fst (example_cols @ [(''notice_id'', ''ilwd:char'')]))
   \<and> known_attributes example_py example_grb_cp Map.empty =
       Inr [''event_ra'' \<mapsto> VFloat ''1.5'', ''event_dec'' \<mapsto> VFloat ''-0.5'', ''start_time'' \<mapsto> VInt 20,
            ''event_number_grb'' \<mapsto> VStr ''100928A'']
   \<and> (''notice_id'', ''ilwd:char'') \<in> set (example_cols @ [(''notice_id'', ''ilwd:char'')])
   \<and> ''notice_id'' \<notin> set known_columns
   \<and> default_value (fzero example_py) ''notice_id'' ''ilwd:char'' = None
   \<and> exttrig_row example_py (example_cols @ [(''notice_id'', ''ilwd:char'')]) example_grb_cp =
       Inl (ValueError ''Column notice_id not recognized'')"
proof -
  have d1: "distinct (map fst example_cols)" by (simp add: example_cols_def)
  have d2: "distinct (map fst (example_cols @ [(''notice_id'', ''ilwd:char'')]))"
    by (simp add: example_cols_def)
  note t1 = exttrig_row_complete [OF d1, where py = example_py and cp = example_grb_cp
      and row = example_row]
  note t2 = exttrig_row_complete [OF d2, where py = example_py and cp = example_grb_cp
      and err = "ValueError ''Column notice_id not recognized''"
      and c = "''notice_id''" and k = "''ilwd:char''"
      and ?r0.0 = "[''event_ra'' \<mapsto> VFloat ''1.5'', ''event_dec'' \<mapsto> VFloat ''-0.5'',
            ''start_time'' \<mapsto> VInt 20, ''event_number_grb'' \<mapsto> VStr ''100928A'']"]
  from t1 example_ok have "\<forall>(entry, kind) \<in> set example_cols. example_row entry \<noteq> None"
    by blast
  then have a: "list_all (\<lambda>(entry, kind). example_row entry \<noteq> None) example_cols"
    by (simp add: list_all_iff)
  have b: "example_row ''event_ra'' = Some (VFloat ''1.5'')"
    "example_row ''process_id'' = Some (VInt 0)"
    "example_row ''det_name'' = Some (VStr [])"
    "example_row ''event_z'' = Some (VFloat (fzero example_py))"
    by (simp_all add: example_row_def example_py_def)
  have c: "(''notice_id'', ''ilwd:char'') \<in> set (example_cols @ [(''notice_id'', ''ilwd:char'')])"
    "''notice_id'' \<notin> set known_columns"
    "default_value (fzero example_py) ''notice_id'' ''ilwd:char'' = None"
    by (simp_all add: known_columns_def default_value_def)
  from t2 example_bad have e: "exttrig_row example_py (example_cols @ [(''notice_id'', ''ilwd:char'')]) example_grb_cp =
       Inl (ValueError ''Column notice_id not recognized'')" by simp
  have m: "written (fst (make_exttrig_file example_py example_cols example_grb_cp ''H1L1'' (0, 10)
      ''/out'' example_world)) = [(''/out/triggerGRB100928A.xml'', example_row)]"
    by (simp add: example_file_made)
  from d1 m example_ok a b d2 example_known c e show ?thesis by simp
qed


section \<open>make_gating_node\<close>

lemma gating_loop_Inr:
  "gating_loop js cls cp dfs outdir tags ifos nodes outs = Inr (ns, os) \<Longrightarrow>
   \<exists>ns' os'. ns = nodes @ ns' \<and> os = outs @ os' \<and>
      length ns' = length ifos \<and> length os' = length ifos \<and>
      (\<forall>i < length ifos. \<exists>job.
          construct js cls cp ''condition_strain'' (ifos ! i) outdir tags = Inr job \<and>
          create_node js job (filter (\<lambda>f. f_ifo f = ifos ! i) dfs) tags = Inr (ns' ! i, os' ! i))"
proof (induction ifos arbitrary: nodes outs)
  case Nil
  then show ?case by simp
next
  case (Cons ifo ifos)
  from Cons.prems obtain job node out where
    j: "construct js cls cp ''condition_strain'' ifo outdir tags = Inr job" and
    c: "create_node js job (filter (\<lambda>f. f_ifo f = ifo) dfs) tags = Inr (node, out)" and
    r: "gating_loop js cls cp dfs outdir tags ifos (nodes @ [node]) (outs @ [out]) = Inr (ns, os)"
    by (auto simp: Let_def split: sum.splits)
  from Cons.IH [OF r] obtain ns' os' where
    h: "ns = (nodes @ [node]) @ ns'" "os = (outs @ [out]) @ os'"
      "length ns' = length ifos" "length os' = length ifos"
      "\<forall>i < length ifos. \<exists>job.
          construct js cls cp ''condition_strain'' (ifos ! i) outdir tags = Inr job \<and>
          create_node js job (filter (\<lambda>f. f_ifo f = ifos ! i) dfs) tags = Inr (ns' ! i, os' ! i)"
    by blast
  have "\<forall>i < length (ifo # ifos). \<exists>job.
          construct js cls cp ''condition_strain'' ((ifo # ifos) ! i) outdir tags = Inr job \<and>
          create_node js job (filter (\<lambda>f. f_ifo f = (ifo # ifos) ! i) dfs) tags
            = Inr ((node # ns') ! i, (out # os') ! i)"
  proof (intro allI impI)
    fix i assume "i < length (ifo # ifos)"
    then show "\<exists>job.
          construct js cls cp ''condition_strain'' ((ifo # ifos) ! i) outdir tags = Inr job \<and>
          create_node js job (filter (\<lambda>f. f_ifo f = (ifo # ifos) ! i) dfs) tags
            = Inr ((node # ns') ! i, (out # os') ! i)"
      using j c h(5) by (cases i) auto
  qed
  with h show ?case
    by (intro exI [of _ "node # ns'"] exI [of _ "out # os'"]) simp
qed

lemma gating_loop_total:
  "\<forall>ifo \<in> set ifos. \<exists>job. construct js cls cp ''condition_strain'' ifo outdir tags = Inr job \<and>
      (\<exists>r. create_node js job (filter (\<lambda>f. f_ifo f = ifo) dfs) tags = Inr r) \<Longrightarrow>
   \<exists>r. gating_loop js cls cp dfs outdir tags ifos nodes outs = Inr r"
proof (induction ifos arbitrary: nodes outs)
  case Nil
  then show ?case by simp
next
  case (Cons ifo ifos)
  from Cons.prems obtain job node out where
    j: "construct js cls cp ''condition_strain'' ifo outdir tags = Inr job" and
    c: "create_node js job (filter (\<lambda>f. f_ifo f = ifo) dfs) tags = Inr (node, out)"
    by fastforce
  from Cons.prems have "\<forall>ifo \<in> set ifos. \<exists>job. construct js cls cp ''condition_strain'' ifo outdir tags = Inr job \<and>
      (\<exists>r. create_node js job (filter (\<lambda>f. f_ifo f = ifo) dfs) tags = Inr r)" by simp
  from Cons.IH [OF this] obtain r where
    "gating_loop js cls cp dfs outdir tags ifos (nodes @ [node]) (outs @ [out]) = Inr r" by blast
  with j c show ?case by (simp add: Let_def)
qed

text \<open>
  C10. When \<open>make_gating_node\<close> returns, it returns one node and one output file per
  instrument of \<open>workflow.ifos\<close>, in the order of \<open>workflow.ifos\<close>: both lists have the
  length of \<open>workflow.ifos\<close>, and the \<open>i\<close>-th node and output are what \<open>create_node\<close>
  gave for the job of the \<open>i\<close>-th instrument, whose input files are the entries of
  \<open>datafind_files\<close> with that instrument as \<open>ifo\<close>, in their original order. It does
  return whenever the executable is found and the job constructor and \<open>create_node\<close>
  succeed for every instrument.
\<close>

theorem make_gating_node_per_ifo:
  "(make_gating_node js workflow datafind_files outdir tags = Inr (nodes, outs) \<longrightarrow>
      length nodes = length (wf_ifos workflow) \<and> length outs = length (wf_ifos workflow) \<and>
      (\<exists>cls. select_generic_executable js workflow ''condition_strain'' = Inr cls \<and>
         (\<forall>i < length (wf_ifos workflow). \<exists>job.
             construct js cls (wf_cp workflow) ''condition_strain'' (wf_ifos workflow ! i) outdir
               (case tags of None \<Rightarrow> [] | Some ts \<Rightarrow> ts) = Inr job \<and>
             create_node js job
               (filter (\<lambda>datafind_file. f_ifo datafind_file = wf_ifos workflow ! i) datafind_files)
               (case tags of None \<Rightarrow> [] | Some ts \<Rightarrow> ts) = Inr (nodes ! i, outs ! i))))
   \<and> (select_generic_executable js workflow ''condition_strain'' = Inr c \<and>
        (\<forall>ifo \<in> set (wf_ifos workflow). \<exists>job.
            construct js c (wf_cp workflow) ''condition_strain'' ifo outdir
              (case tags of None \<Rightarrow> [] | Some ts \<Rightarrow> ts) = Inr job \<and>
            (\<exists>r. create_node js job
               (filter (\<lambda>datafind_file. f_ifo datafind_file = ifo) datafind_files)
               (case tags of None \<Rightarrow> [] | Some ts \<Rightarrow> ts) = Inr r)) \<longrightarrow>
        (\<exists>r. make_gating_node js workflow datafind_files outdir tags = Inr r))"
proof (intro conjI impI)
  assume a: "make_gating_node js workflow datafind_files outdir tags = Inr (nodes, outs)"
  then obtain cls where
    s: "select_generic_executable js workflow ''condition_strain'' = Inr cls" and
    g: "gating_loop js cls (wf_cp workflow) datafind_files outdir
          (case tags of None \<Rightarrow> [] | Some ts \<Rightarrow> ts) (wf_ifos workflow) [] [] = Inr (nodes, outs)"
    by (auto simp: make_gating_node_def Let_def split: sum.splits)
  from gating_loop_Inr [OF g] show "length nodes = length (wf_ifos workflow)" by auto
  from gating_loop_Inr [OF g] show "length outs = length (wf_ifos workflow)" by auto
  from gating_loop_Inr [OF g] s
  show "\<exists>cls. select_generic_executable js workflow ''condition_strain'' = Inr cls \<and>
         (\<forall>i < length (wf_ifos workflow). \<exists>job.
             construct js cls (wf_cp workflow) ''condition_strain'' (wf_ifos workflow ! i) outdir
               (case tags of None \<Rightarrow> [] | Some ts \<Rightarrow> ts) = Inr job \<and>
             create_node js job
               (filter (\<lambda>datafind_file. f_ifo datafind_file = wf_ifos workflow ! i) datafind_files)
               (case tags of None \<Rightarrow> [] | Some ts \<Rightarrow> ts) = Inr (nodes ! i, outs ! i))"
    by auto
next
  assume b: "select_generic_executable js workflow ''condition_strain'' = Inr c \<and>
        (\<forall>ifo \<in> set (wf_ifos workflow). \<exists>job.
            construct js c (wf_cp workflow) ''condition_strain'' ifo outdir
              (case tags of None \<Rightarrow> [] | Some ts \<Rightarrow> ts) = Inr job \<and>
            (\<exists>r. create_node js job
               (filter (\<lambda>datafind_file. f_ifo datafind_file = ifo) datafind_files)
               (case tags of None \<Rightarrow> [] | Some ts \<Rightarrow> ts) = Inr r))"
  then have "\<exists>r. gating_loop js c (wf_cp workflow) datafind_files outdir
          (case tags of None \<Rightarrow> [] | Some ts \<Rightarrow> ts) (wf_ifos workflow) [] [] = Inr r"
    by (intro gating_loop_total) simp
  with b show "\<exists>r. make_gating_node js workflow datafind_files outdir tags = Inr r"
    by (simp add: make_gating_node_def Let_def)
qed

lemma example_gating:
  "make_gating_node example_jobsetup example_workflow
     [example_frame ''L1'' ''/l-1'', example_frame ''H1'' ''/h-1'', example_frame ''V1'' ''/v-1'',
      example_frame ''H1'' ''/h-2''] None (Some [''grb''])
   = Inr ([''H1:/h-1/h-2'', ''L1:/l-1''],
          [\<lparr>f_ifo = ''H1'', f_exe_name = ''condition_strain'', f_segs = (0, 10),
              f_url = ''file://localhost/gated'', f_path = ''/gated'', f_pfns = []\<rparr>,
           \<lparr>f_ifo = ''L1'', f_exe_name = ''condition_strain'', f_segs = (0, 10),
              f_url = ''file://localhost/gated'', f_path = ''/gated'', f_pfns = []\<rparr>])"
  by (simp add: make_gating_node_def example_jobsetup_def example_workflow_def example_frame_def
      Let_def)

theorem make_gating_node_per_ifo_witness:
  "make_gating_node example_jobsetup example_workflow
     [example_frame ''L1'' ''/l-1'', example_frame ''H1'' ''/h-1'', example_frame ''V1'' ''/v-1'',
      example_frame ''H1'' ''/h-2''] None (Some [''grb''])
   = Inr ([''H1:/h-1/h-2'', ''L1:/l-1''],
          [\<lparr>f_ifo = ''H1'', f_exe_name = ''condition_strain'', f_segs = (0, 10),
              f_url = ''file://localhost/gated'', f_path = ''/gated'', f_pfns = []\<rparr>,
           \<lparr>f_ifo = ''L1'', f_exe_name = ''condition_strain'', f_segs = (0, 10),
              f_url = ''file://localhost/gated'', f_path = ''/gated'', f_pfns = []\<rparr>])
   \<and> length [''H1:/h-1/h-2'', ''L1:/l-1''] = length (wf_ifos example_workflow)
   \<and> select_generic_executable example_jobsetup example_workflow ''condition_strain''
       = Inr ''condition_strain''
   \<and> list_all (\<lambda>ifo. \<exists>job.
         construct example_jobsetup ''condition_strain'' (wf_cp example_workflow)
           ''condition_strain'' ifo None [''grb''] = Inr job \<and>
         (\<exists>r. create_node example_jobsetup job
            (filter (\<lambda>datafind_file. f_ifo datafind_file = ifo)
               [example_frame ''L1'' ''/l-1'', example_frame ''H1'' ''/h-1'',
                example_frame ''V1'' ''/v-1'', example_frame ''H1'' ''/h-2''])
            [''grb''] = Inr r)) (wf_ifos example_workflow)"
proof -
  note t = make_gating_node_per_ifo [where js = example_jobsetup and workflow = example_workflow
      and datafind_files = "[example_frame ''L1'' ''/l-1'', example_frame ''H1'' ''/h-1'',
        example_frame ''V1'' ''/v-1'', example_frame ''H1'' ''/h-2'']"
      and outdir = None and tags = "Some [''grb'']" and c = "''condition_strain''"
      and nodes = "[''H1:/h-1/h-2'', ''L1:/l-1'']"
      and outs = "[\<lparr>f_ifo = ''H1'', f_exe_name = ''condition_strain'', f_segs = (0, 10),
              f_url = ''file://localhost/gated'', f_path = ''/gated'', f_pfns = []\<rparr>,
           \<lparr>f_ifo = ''L1'', f_exe_name = ''condition_strain'', f_segs = (0, 10),
              f_url = ''file://localhost/gated'', f_path = ''/gated'', f_pfns = []\<rparr>]"]
  have s: "select_generic_executable example_jobsetup example_workflow ''condition_strain''
       = Inr ''condition_strain''"
    by (simp add: example_jobsetup_def)
  have h: "\<forall>ifo \<in> set (wf_ifos example_workflow). \<exists>job.
         construct example_jobsetup ''condition_strain'' (wf_cp example_workflow)
           ''condition_strain'' ifo None [''grb''] = Inr job \<and>
         (\<exists>r. create_node example_jobsetup job
            (filter (\<lambda>datafind_file. f_ifo datafind_file = ifo)
               [example_frame ''L1'' ''/l-1'', example_frame ''H1'' ''/h-1'',
                example_frame ''V1'' ''/v-1'', example_frame ''H1'' ''/h-2''])
            [''grb''] = Inr r)"
    by (simp add: example_jobsetup_def)
  from t example_gating have l: "length [''H1:/h-1/h-2'', ''L1:/l-1''] = length (wf_ifos example_workflow)"
    by blast
  from t s h have "\<exists>r. make_gating_node example_jobsetup example_workflow
     [example_frame ''L1'' ''/l-1'', example_frame ''H1'' ''/h-1'', example_frame ''V1'' ''/v-1'',
      example_frame ''H1'' ''/h-2''] None (Some [''grb'']) = Inr r"
    by simp
  from h have h': "list_all (\<lambda>ifo. \<exists>job.
         construct example_jobsetup ''condition_strain'' (wf_cp example_workflow)
           ''condition_strain'' ifo None [''grb''] = Inr job \<and>
         (\<exists>r. create_node example_jobsetup job
            (filter (\<lambda>datafind_file. f_ifo datafind_file = ifo)
               [example_frame ''L1'' ''/l-1'', example_frame ''H1'' ''/h-1'',
                example_frame ''V1'' ''/v-1'', example_frame ''H1'' ''/h-2''])
            [''grb''] = Inr r)) (wf_ifos example_workflow)"
    by (simp only: list_all_iff)
  from example_gating l s h' show ?thesis by blast
qed

end
